theory Spec2Isabelle
  imports Main
begin

section \<open>Data model\<close>

text \<open>
  The live service \<open>CentrifugeSrv\<close> keeps a registry \<open>open\<close> from channel ids to channel
  objects and initialises every new channel in the background. JavaScript runs it on a
  single-threaded event loop, so the embedding is a state record and one function per
  piece of code that runs without interruption: \<open>getChannel\<close> up to its \<open>return\<close>, the
  part of \<open>initChannel\<close> between two \<open>await\<close>s, the \<open>catch\<close> handler, the transport's
  listeners. Objects live in a store (\<open>heap\<close>) and are named by their index, so that
  "the identical instance" is equality of references.
\<close>

type_synonym err = string
type_synonym ref = nat

text \<open>\<open>enum LiveChannelScope\<close>, with the string each member stands for.\<close>

datatype LiveChannelScope = DataSource | Plugin | Grafana

fun scope_value :: "LiveChannelScope \<Rightarrow> string" where
  "scope_value DataSource = ''ds''"
| "scope_value Plugin = ''plugin''"
| "scope_value Grafana = ''grafana''"

text \<open>
  \<open>interface LiveChannelConfig\<close>. \<open>canPublish\<close> is an optional function; what the model
  keeps of it is what a call does: it throws (\<open>Inl\<close>) or returns a boolean (\<open>Inr\<close>).
  The fields \<open>variables\<close> and \<open>processMessage\<close> are never read by the service and are
  left out.
\<close>

record LiveChannelConfig =
  config_path :: string
  description :: "string option"
  hasPresense :: "bool option"
  canPublish :: "(err + bool) option"

datatype LiveChannelConnectionState = Pending | Connected | Disconnected | Shutdown | Invalid

text \<open>
  \<open>interface LiveChannelSupport\<close>: \<open>getChannelConfig(path)\<close> returns a config, returns
  \<open>undefined\<close>, or throws.
\<close>

type_synonym LiveChannelSupport = "string \<Rightarrow> err + LiveChannelConfig option"

text \<open>
  The two closures the service stores in a channel: \<open>shutdownCallback\<close>
  (\<open>() => this.open.delete(id)\<close>) and \<open>publish\<close>
  (\<open>data => this.centrifuge.publish(channel.id, data)\<close>), each with the id it captured.
\<close>

datatype callback = OpenDelete string

datatype publish_fn = CentrifugePublish string

text \<open>
  Modelled from the spec: class \<open>CentrifugeLiveChannel\<close> of \<open>./channel\<close> is not among the
  sources. The fields are those the service reads and writes (\<open>id\<close>, \<open>namespace\<close>,
  \<open>path\<close>, \<open>publish\<close>, \<open>subscription\<close>, \<open>shutdownCallback\<close>) and those of the spec's
  Channel entity (scope, config, connection state, last error).
\<close>

record CentrifugeLiveChannel =
  channel_id :: string
  scope :: string
  namespace :: string
  path :: string
  config :: "LiveChannelConfig option"
  state :: LiveChannelConnectionState
  error :: "err option"
  subscription :: "nat option"
  publish :: "publish_fn option"
  shutdownCallback :: "callback option"

text \<open>
  Modelled from the spec: the object \<open>getErrorChannel(msg, id, scope, namespace, path)\<close>
  of \<open>./channel\<close> builds is not among the sources; it is a \<open>LiveChannel\<close> that is not a
  \<open>CentrifugeLiveChannel\<close> and carries the message and the address it was given.
\<close>

record ErrorChannel =
  err_msg :: string
  err_id :: string
  err_scope :: string
  err_namespace :: string
  err_path :: string

datatype LiveChannel = Centrifuge CentrifugeLiveChannel | ErrorCh ErrorChannel

text \<open>
  What \<open>this.scopes[scopeId]\<close> can find. The table is an object literal with the three
  scope keys, and a property read on an object also finds what every object inherits from
  \<open>Object.prototype\<close>: such a value is truthy but has no \<open>getChannelSupport\<close>.
\<close>

datatype GrafanaLiveScope =
  grafanaLiveCoreFeatures | GrafanaLiveDataSourceScope | GrafanaLivePluginScope

datatype scope_entry = Scope GrafanaLiveScope | Inherited

text \<open>
  The promise \<open>initChannel\<close> returns, with the point where the function is suspended:
  at \<open>await scope.getChannelSupport\<close>, at \<open>await this.connectionBlocker\<close> (the local
  \<open>config\<close> is kept), fulfilled, rejected with the handler of \<open>.catch\<close> still to run, or
  rejected and handled.
\<close>

datatype init_task =
    AwaitSupport
  | AwaitBlocker LiveChannelConfig
  | Fulfilled LiveChannelConfig
  | Rejected err
  | Caught err

text \<open>
  The service. \<open>centrifuge_connected\<close> is what \<open>this.centrifuge.isConnected()\<close> returns,
  \<open>connectListener\<close> whether the constructor's one-shot listener is still attached,
  \<open>connectionBlocker\<close> whether that promise is resolved, and \<open>connectionState\<close> the values
  the \<open>BehaviorSubject\<close> has held, oldest first (the last one is its current value).
\<close>

record CentrifugeSrv =
  "open" :: "string \<rightharpoonup> ref"
  heap :: "LiveChannel list"
  tasks :: "ref \<rightharpoonup> init_task"
  centrifuge_connected :: bool
  connectListener :: bool
  connectionBlocker :: bool
  connectionState :: "bool list"

section \<open>The channel class\<close>

text \<open>
  Modelled from the spec: the constructor of \<open>CentrifugeLiveChannel\<close> is not among the
  sources. "Initial state: Pending, set at creation before any network activity"; the
  subscription handle and the publish function are "nullable".
\<close>

definition new_CentrifugeLiveChannel ::
  "string \<Rightarrow> string \<Rightarrow> string \<Rightarrow> string \<Rightarrow> CentrifugeLiveChannel" where
  "new_CentrifugeLiveChannel i sc ns p =
     \<lparr>channel_id = i, scope = sc, namespace = ns, path = p, config = None,
      state = Pending, error = None, subscription = None, publish = None,
      shutdownCallback = None\<rparr>"

text \<open>Reading and updating the channel object behind a reference.\<close>

definition channel_at :: "CentrifugeSrv \<Rightarrow> ref \<Rightarrow> CentrifugeLiveChannel option" where
  "channel_at s r =
     (if r < length (heap s)
      then (case heap s ! r of Centrifuge ch \<Rightarrow> Some ch | ErrorCh e \<Rightarrow> None)
      else None)"

definition update_channel ::
  "ref \<Rightarrow> (CentrifugeLiveChannel \<Rightarrow> CentrifugeLiveChannel) \<Rightarrow> CentrifugeSrv \<Rightarrow> CentrifugeSrv" where
  "update_channel r f s =
     (case channel_at s r of
        None \<Rightarrow> s
      | Some ch \<Rightarrow> s\<lparr>heap := (heap s)[r := Centrifuge (f ch)]\<rparr>)"

fun run_callback :: "callback \<Rightarrow> CentrifugeSrv \<Rightarrow> CentrifugeSrv" where
  "run_callback (OpenDelete i) s = s\<lparr>open := (open s)(i := None)\<rparr>"

text \<open>
  Modelled from the spec: \<open>CentrifugeLiveChannel.initalize(config)\<close> is not among the
  sources. The config is "handed to a Channel" and becomes the channel's \<open>config\<close>.
\<close>

definition initalize :: "ref \<Rightarrow> LiveChannelConfig \<Rightarrow> CentrifugeSrv \<Rightarrow> CentrifugeSrv" where
  "initalize r cfg s = update_channel r (\<lambda>ch. ch\<lparr>config := Some cfg\<rparr>) s"

text \<open>
  Modelled from the spec: \<open>CentrifugeLiveChannel.disconnect()\<close> is not among the sources.
  It "forces transition to Shutdown regardless of current state", "the transport
  subscription (if any) is released", and "the channel is removed from the registry":
  the channel's only handle on the registry is its \<open>shutdownCallback\<close>.
  On an error channel \<open>disconnect\<close> has nothing to do.
\<close>

definition disconnect :: "ref \<Rightarrow> CentrifugeSrv \<Rightarrow> CentrifugeSrv" where
  "disconnect r s =
     (case channel_at s r of
        None \<Rightarrow> s
      | Some ch \<Rightarrow>
          (let s1 = update_channel r (\<lambda>c. c\<lparr>state := Shutdown, subscription := None\<rparr>) s
           in case shutdownCallback ch of
                None \<Rightarrow> s1
              | Some cb \<Rightarrow> run_callback cb s1))"

text \<open>
  Modelled from the spec: \<open>CentrifugeLiveChannel.shutdownWithError(err)\<close> is not among
  the sources. An initialization error "forces the channel to Shutdown-with-error": the
  error is recorded in the status and the channel shuts down as \<open>disconnect\<close> does.
\<close>

definition shutdownWithError :: "ref \<Rightarrow> err \<Rightarrow> CentrifugeSrv \<Rightarrow> CentrifugeSrv" where
  "shutdownWithError r e s = disconnect r (update_channel r (\<lambda>c. c\<lparr>error := Some e\<rparr>) s)"

text \<open>
  Modelled from the spec: \<open>getErrorChannel\<close> of \<open>./channel\<close> is not among the sources.
  Each call builds a new object; nothing is registered.
\<close>

definition getErrorChannel ::
  "string \<Rightarrow> string \<Rightarrow> string \<Rightarrow> string \<Rightarrow> string \<Rightarrow> CentrifugeSrv \<Rightarrow> ref \<times> CentrifugeSrv" where
  "getErrorChannel msg i sc ns p s =
     (length (heap s),
      s\<lparr>heap := heap s @
         [ErrorCh \<lparr>err_msg = msg, err_id = i, err_scope = sc, err_namespace = ns,
                   err_path = p\<rparr>]\<rparr>)"

section \<open>The service\<close>

text \<open>
  The constructor. Its argument is what \<open>this.centrifuge.isConnected()\<close> answers right
  after \<open>connect()\<close>: the subject starts with that value, and the blocker is resolved at
  once if it is true, otherwise a listener for \<open>connect\<close> is attached.
\<close>

definition CentrifugeSrv_new :: "bool \<Rightarrow> CentrifugeSrv" where
  "CentrifugeSrv_new connected =
     \<lparr>open = Map.empty, heap = [], tasks = Map.empty,
      centrifuge_connected = connected,
      connectListener = (\<not> connected),
      connectionBlocker = connected,
      connectionState = [connected]\<rparr>"

text \<open>The names every object inherits from \<open>Object.prototype\<close>.\<close>

definition object_prototype_keys :: "string list" where
  "object_prototype_keys =
     [''constructor'', ''__defineGetter__'', ''__defineSetter__'', ''hasOwnProperty'',
      ''__lookupGetter__'', ''__lookupSetter__'', ''isPrototypeOf'',
      ''propertyIsEnumerable'', ''toString'', ''valueOf'', ''__proto__'',
      ''toLocaleString'']"

text \<open>\<open>this.scopes[scopeId]\<close>; \<open>None\<close> is \<open>undefined\<close>.\<close>

definition scopes :: "string \<Rightarrow> scope_entry option" where
  "scopes scopeId =
     (if scopeId = scope_value Grafana then Some (Scope grafanaLiveCoreFeatures)
      else if scopeId = scope_value DataSource then Some (Scope GrafanaLiveDataSourceScope)
      else if scopeId = scope_value Plugin then Some (Scope GrafanaLivePluginScope)
      else if scopeId \<in> set object_prototype_keys then Some Inherited
      else None)"

text \<open>\<open>onConnect\<close> and \<open>onDisconnect\<close>: \<open>this.connectionState.next(...)\<close>.\<close>

definition onConnect :: "CentrifugeSrv \<Rightarrow> CentrifugeSrv" where
  "onConnect s = s\<lparr>connectionState := connectionState s @ [True]\<rparr>"

definition onDisconnect :: "CentrifugeSrv \<Rightarrow> CentrifugeSrv" where
  "onDisconnect s = s\<lparr>connectionState := connectionState s @ [False]\<rparr>"

text \<open>The constructor's \<open>connectListener\<close>: resolve the blocker, remove the listener.\<close>

definition run_connectListener :: "CentrifugeSrv \<Rightarrow> CentrifugeSrv" where
  "run_connectListener s = s\<lparr>connectionBlocker := True, connectListener := False\<rparr>"

definition getConnectionState :: "CentrifugeSrv \<Rightarrow> bool list" where
  "getConnectionState s = connectionState s"

definition isConnected :: "CentrifugeSrv \<Rightarrow> bool" where
  "isConnected s = centrifuge_connected s"

text \<open>
  The transport emits \<open>connect\<close>: it is connected, and the listeners run in the order
  they were added (\<open>connectListener\<close> if still attached, then \<open>onConnect\<close>). The
  transport emits \<open>disconnect\<close>: it is not connected, and \<open>onDisconnect\<close> runs.
\<close>

definition transport_connect :: "CentrifugeSrv \<Rightarrow> CentrifugeSrv" where
  "transport_connect s =
     (let s1 = s\<lparr>centrifuge_connected := True\<rparr>;
          s2 = (if connectListener s1 then run_connectListener s1 else s1)
      in onConnect s2)"

definition transport_disconnect :: "CentrifugeSrv \<Rightarrow> CentrifugeSrv" where
  "transport_disconnect s = onDisconnect (s\<lparr>centrifuge_connected := False\<rparr>)"

text \<open>The id of line 80: \<open>`${scopeId}/${namespace}/${path}`\<close>.\<close>

definition format_id :: "string \<Rightarrow> string \<Rightarrow> string \<Rightarrow> string" where
  "format_id scopeId ns p = scopeId @ ''/'' @ ns @ ''/'' @ p"

definition set_task :: "ref \<Rightarrow> init_task \<Rightarrow> CentrifugeSrv \<Rightarrow> CentrifugeSrv" where
  "set_task r t s = s\<lparr>tasks := (tasks s)(r \<mapsto> t)\<rparr>"

text \<open>
  \<open>initChannel\<close>, lines 120 to 124, the part after the last \<open>await\<close>: bind \<open>publish\<close> if
  \<open>canPublish\<close> is there and returns true, then subscribe. \<open>sub\<close> is what
  \<open>this.centrifuge.subscribe\<close> does in this run: it throws or returns a handle.
\<close>

definition initChannel_subscribe ::
  "ref \<Rightarrow> LiveChannelConfig \<Rightarrow> err + nat \<Rightarrow> CentrifugeSrv \<Rightarrow> CentrifugeSrv" where
  "initChannel_subscribe r cfg sub s =
     (case channel_at s r of
        None \<Rightarrow> s
      | Some ch \<Rightarrow>
          (case canPublish cfg of
             Some (Inl e) \<Rightarrow> set_task r (Rejected e) s
           | other \<Rightarrow>
               (let s1 = (if other = Some (Inr True)
                          then update_channel r
                                 (\<lambda>c. c\<lparr>publish := Some (CentrifugePublish (channel_id ch))\<rparr>) s
                          else s)
                in case sub of
                     Inl e \<Rightarrow> set_task r (Rejected e) s1
                   | Inr h \<Rightarrow>
                       set_task r (Fulfilled cfg)
                         (update_channel r (\<lambda>c. c\<lparr>subscription := Some h\<rparr>) s1))))"

text \<open>
  \<open>initChannel\<close>, lines 108 to 119, resumed when the promise of
  \<open>scope.getChannelSupport\<close> settles: \<open>support\<close> is the rejection (\<open>Inl\<close>) or the value,
  \<open>None\<close> for \<open>undefined\<close>.
\<close>

definition initChannel_support ::
  "ref \<Rightarrow> err + LiveChannelSupport option \<Rightarrow> err + nat \<Rightarrow> CentrifugeSrv \<Rightarrow> CentrifugeSrv" where
  "initChannel_support r support sub s =
     (case channel_at s r of
        None \<Rightarrow> s
      | Some ch \<Rightarrow>
          (case support of
             Inl e \<Rightarrow> set_task r (Rejected e) s
           | Inr None \<Rightarrow> set_task r (Rejected (namespace ch @ ''does not support streaming'')) s
           | Inr (Some getChannelConfig) \<Rightarrow>
               (case getChannelConfig (path ch) of
                  Inl e \<Rightarrow> set_task r (Rejected e) s
                | Inr None \<Rightarrow> set_task r (Rejected (''unknown path: '' @ path ch)) s
                | Inr (Some cfg) \<Rightarrow>
                    (let s1 = initalize r cfg s
                     in if \<not> isConnected s1
                        then set_task r (AwaitBlocker cfg) s1
                        else initChannel_subscribe r cfg sub s1))))"

text \<open>
  \<open>initChannel\<close>, line 108, the part that runs inside \<open>getChannel\<close>: the call
  \<open>scope.getChannelSupport(channel.namespace)\<close>. On a value inherited from
  \<open>Object.prototype\<close> there is no such method and the call throws a TypeError, which
  rejects the promise; on a scope it returns the promise awaited.
\<close>

definition initChannel :: "scope_entry \<Rightarrow> ref \<Rightarrow> CentrifugeSrv \<Rightarrow> CentrifugeSrv" where
  "initChannel sc r s =
     (case sc of
        Inherited \<Rightarrow> set_task r (Rejected ''scope.getChannelSupport is not a function'') s
      | Scope g \<Rightarrow> set_task r AwaitSupport s)"

text \<open>
  The handler of \<open>.catch\<close>, lines 98 to 101, with the error the promise was rejected with.
  The \<open>id\<close> in the closure is the one the channel was constructed with.
\<close>

definition init_catch :: "ref \<Rightarrow> err \<Rightarrow> CentrifugeSrv \<Rightarrow> CentrifugeSrv" where
  "init_catch r e s =
     (case channel_at s r of
        None \<Rightarrow> s
      | Some ch \<Rightarrow>
          (let s1 = shutdownWithError r e s;
               s2 = s1\<lparr>open := (open s1)(channel_id ch := None)\<rparr>
           in set_task r (Caught e) s2))"

text \<open>
  \<open>getChannel\<close>, lines 75 to 105. The parameter \<open>scopeId\<close> is declared a
  \<open>LiveChannelScope\<close>; at run time it is a string, and line 87 guards against a string
  that is no scope, so the model takes any string. The result is the reference returned
  and the service after the call.
\<close>

definition getChannel ::
  "string \<Rightarrow> string \<Rightarrow> string \<Rightarrow> CentrifugeSrv \<Rightarrow> ref \<times> CentrifugeSrv" where
  "getChannel scopeId ns p s =
     (let i = format_id scopeId ns p
      in case open s i of
           Some channel \<Rightarrow> (channel, s)
         | None \<Rightarrow>
             (case scopes scopeId of
                None \<Rightarrow> getErrorChannel ''invalid scope'' i scopeId ns p s
              | Some sc \<Rightarrow>
                  (let channel = length (heap s);
                       obj = (new_CentrifugeLiveChannel i scopeId ns p)
                               \<lparr>shutdownCallback := Some (OpenDelete i)\<rparr>;
                       s1 = s\<lparr>heap := heap s @ [Centrifuge obj]\<rparr>;
                       s2 = s1\<lparr>open := (open s1)(i \<mapsto> channel)\<rparr>
                   in (channel, initChannel sc channel s2))))"

section \<open>The event loop\<close>

text \<open>
  What can happen to the service, one uninterrupted run each: a caller asks for a channel;
  the promise of \<open>getChannelSupport\<close> settles for a channel suspended there; a channel
  suspended at the blocker resumes (only once the blocker is resolved); the \<open>catch\<close>
  handler of a rejected initialization runs; the transport connects or disconnects; a
  caller disconnects a channel. An event that is not enabled leaves the state as it is.
\<close>

datatype event =
    GetChannel string string string
  | SupportSettled ref "err + LiveChannelSupport option" "err + nat"
  | BlockerResolved ref "err + nat"
  | RunCatch ref
  | TransportConnect
  | TransportDisconnect
  | ChannelDisconnect ref

fun step :: "event \<Rightarrow> CentrifugeSrv \<Rightarrow> CentrifugeSrv" where
  "step (GetChannel scopeId ns p) s = snd (getChannel scopeId ns p s)"
| "step (SupportSettled r support sub) s =
     (case tasks s r of
        Some AwaitSupport \<Rightarrow> initChannel_support r support sub s
      | _ \<Rightarrow> s)"
| "step (BlockerResolved r sub) s =
     (case tasks s r of
        Some (AwaitBlocker cfg) \<Rightarrow>
          (if connectionBlocker s then initChannel_subscribe r cfg sub s else s)
      | _ \<Rightarrow> s)"
| "step (RunCatch r) s =
     (case tasks s r of
        Some (Rejected e) \<Rightarrow> init_catch r e s
      | _ \<Rightarrow> s)"
| "step TransportConnect s = transport_connect s"
| "step TransportDisconnect s = transport_disconnect s"
| "step (ChannelDisconnect r) s = disconnect r s"

fun run :: "event list \<Rightarrow> CentrifugeSrv \<Rightarrow> CentrifugeSrv" where
  "run [] s = s"
| "run (e # es) s = run es (step e s)"

section \<open>The address model\<close>

text \<open>
  The spec's condition on an address: a segment is valid when it is not empty and does not
  contain the separator.
\<close>

definition valid_segment :: "string \<Rightarrow> bool" where
  "valid_segment seg = (seg \<noteq> [] \<and> CHR ''/'' \<notin> set seg)"

datatype address_error = InvalidAddress

text \<open>Cutting a string at every separator.\<close>

fun split_id :: "string \<Rightarrow> string list" where
  "split_id [] = [[]]"
| "split_id (c # cs) =
     (if c = CHR ''/'' then [] # split_id cs
      else (case split_id cs of [] \<Rightarrow> [[c]] | w # ws \<Rightarrow> (c # w) # ws))"

fun parse_scope :: "string \<Rightarrow> LiveChannelScope option" where
  "parse_scope sc =
     (if sc = ''ds'' then Some DataSource
      else if sc = ''plugin'' then Some Plugin
      else if sc = ''grafana'' then Some Grafana
      else None)"

text \<open>
  Modelled from the spec: the parser of the Channel Address Model is not among the
  sources. "Given an id, parse back into the triple. Fails with InvalidAddress if any
  segment is empty or contains the separator character"; the id is "exactly
  {scope}/{namespace}/{path}" and the scope "one of ds, plugin, grafana".
\<close>

definition parse_id :: "string \<Rightarrow> address_error + (LiveChannelScope \<times> string \<times> string)" where
  "parse_id i =
     (case split_id i of
        [sc, ns, p] \<Rightarrow>
          (case parse_scope sc of
             None \<Rightarrow> Inl InvalidAddress
           | Some k \<Rightarrow> if ns = [] \<or> p = [] then Inl InvalidAddress else Inr (k, ns, p))
      | _ \<Rightarrow> Inl InvalidAddress)"

section \<open>Invariants of the reachable states\<close>

text \<open>
  Every registered id leads to a channel object with that id; every channel object was
  built by \<open>getChannel\<close>, so its callback deletes its own id, its id is the formatted
  address, and its scope was found in the table.
\<close>

definition registry_ok :: "CentrifugeSrv \<Rightarrow> bool" where
  "registry_ok s =
     (\<forall>i r. open s i = Some r \<longrightarrow> (\<exists>ch. channel_at s r = Some ch \<and> channel_id ch = i))"

definition channels_ok :: "CentrifugeSrv \<Rightarrow> bool" where
  "channels_ok s =
     (\<forall>r ch. channel_at s r = Some ch \<longrightarrow>
        shutdownCallback ch = Some (OpenDelete (channel_id ch)) \<and>
        channel_id ch = format_id (scope ch) (namespace ch) (path ch) \<and>
        scopes (scope ch) \<noteq> None)"

text \<open>
  Until the initialization of a channel has passed line 120, the channel has no
  \<open>publish\<close>; once it is fulfilled, the channel holds the resolved config and has a
  \<open>publish\<close> exactly when \<open>canPublish\<close> returned true.
\<close>

fun publish_inv :: "CentrifugeLiveChannel option \<Rightarrow> init_task option \<Rightarrow> bool" where
  "publish_inv (Some ch) (Some AwaitSupport) = (publish ch = None)"
| "publish_inv (Some ch) (Some (AwaitBlocker cfg)) = (publish ch = None \<and> config ch = Some cfg)"
| "publish_inv (Some ch) (Some (Fulfilled cfg)) =
     (config ch = Some cfg \<and> (publish ch \<noteq> None) = (canPublish cfg = Some (Inr True)))"
| "publish_inv ch t = True"

definition publish_ok :: "CentrifugeSrv \<Rightarrow> bool" where
  "publish_ok s = (\<forall>r. publish_inv (channel_at s r) (tasks s r))"

text \<open>
  Before the first connect event: the blocker is pending, its listener is attached, and
  nothing is subscribed.
\<close>

definition not_yet_connected :: "CentrifugeSrv \<Rightarrow> bool" where
  "not_yet_connected s =
     (\<not> centrifuge_connected s \<and> \<not> connectionBlocker s \<and> connectListener s \<and>
      (\<forall>r ch. channel_at s r = Some ch \<longrightarrow> subscription ch = None))"

text \<open>
  A shutdown of a channel with the id \<open>i\<close>: \<open>disconnect()\<close> of such a channel, or the
  \<open>catch\<close> handler of its rejected initialization. A run of events is undisturbed for
  \<open>i\<close> when none of its events is one, in the state where it happens.
\<close>

fun is_rejected :: "init_task option \<Rightarrow> bool" where
  "is_rejected (Some (Rejected e)) = True"
| "is_rejected t = False"

fun shuts_down :: "string \<Rightarrow> CentrifugeSrv \<Rightarrow> event \<Rightarrow> bool" where
  "shuts_down i s (RunCatch r) =
     (map_option channel_id (channel_at s r) = Some i \<and> is_rejected (tasks s r))"
| "shuts_down i s (ChannelDisconnect r) = (map_option channel_id (channel_at s r) = Some i)"
| "shuts_down i s e = False"

fun undisturbed :: "string \<Rightarrow> event list \<Rightarrow> CentrifugeSrv \<Rightarrow> bool" where
  "undisturbed i [] s = True"
| "undisturbed i (e # es) s = (\<not> shuts_down i s e \<and> undisturbed i es (step e s))"

text \<open>Only channels have an initialization.\<close>

definition tasks_ok :: "CentrifugeSrv \<Rightarrow> bool" where
  "tasks_ok s = (\<forall>r. tasks s r \<noteq> None \<longrightarrow> channel_at s r \<noteq> None)"

text \<open>The event in which the channel \<open>r\<close> resumes from \<open>await this.connectionBlocker\<close>.\<close>

fun resumes :: "ref \<Rightarrow> event \<Rightarrow> bool" where
  "resumes r (BlockerResolved r' sub) = (r' = r)"
| "resumes r e = False"

text \<open>The \<open>id\<close> of a \<open>LiveChannel\<close>, whichever object it is.\<close>

fun LiveChannel_id :: "LiveChannel \<Rightarrow> string" where
  "LiveChannel_id (Centrifuge ch) = channel_id ch"
| "LiveChannel_id (ErrorCh e) = err_id e"

text \<open>
  A support object of the simplest kind, for the examples: every path has the same
  config.
\<close>

definition support_with :: "LiveChannelConfig \<Rightarrow> LiveChannelSupport" where
  "support_with cfg p = Inr (Some cfg)"

definition example_config :: "(err + bool) option \<Rightarrow> LiveChannelConfig" where
  "example_config cp =
     \<lparr>config_path = ''random-2s-stream'', description = None, hasPresense = None,
      canPublish = cp\<rparr>"

section \<open>\<open>getChannel\<close> with its exceptions\<close>

text \<open>
  What a call of \<open>getChannel\<close> does when every statement may complete normally or throw
  (\<open>Inl\<close>). The statements of \<open>getChannel\<close> itself (the template string, \<open>Map.get\<close>,
  the property read, \<open>Map.set\<close>, the assignment) do not throw on strings; the
  constructor and \<open>getErrorChannel\<close> are the ones modelled above. The one call that can
  throw is in \<open>initChannel\<close>: \<open>scope.getChannelSupport(channel.namespace)\<close>, line 108.
  What that call does on a scope is a parameter: it returns (\<open>Inr\<close>: a promise or a
  value, and the function is suspended at the \<open>await\<close>) or it throws; on a value
  inherited from \<open>Object.prototype\<close> it throws the TypeError.
\<close>

type_synonym scope_call = "GrafanaLiveScope \<Rightarrow> string \<Rightarrow> err + unit"

definition initChannel_body :: "scope_call \<Rightarrow> scope_entry \<Rightarrow> string \<Rightarrow> err + unit" where
  "initChannel_body call sc ns =
     (case sc of
        Inherited \<Rightarrow> Inl ''scope.getChannelSupport is not a function''
      | Scope g \<Rightarrow> call g ns)"

text \<open>
  \<open>initChannel\<close> is an \<open>async\<close> function: calling it runs its body up to the first
  \<open>await\<close> and returns a promise, rejected if the body threw, pending if it is
  suspended. The call itself completes normally.
\<close>

definition async_started :: "err + unit \<Rightarrow> init_task" where
  "async_started body = (case body of Inl e \<Rightarrow> Rejected e | Inr u \<Rightarrow> AwaitSupport)"

definition call_initChannel ::
  "scope_call \<Rightarrow> scope_entry \<Rightarrow> ref \<Rightarrow> string \<Rightarrow> CentrifugeSrv \<Rightarrow> err + CentrifugeSrv" where
  "call_initChannel call sc r ns s = Inr (set_task r (async_started (initChannel_body call sc ns)) s)"

text \<open>
  \<open>getChannel\<close>, lines 75 to 105, statement by statement: an exception of a statement
  is the exception of the call.
\<close>

definition getChannel_completion ::
  "scope_call \<Rightarrow> string \<Rightarrow> string \<Rightarrow> string \<Rightarrow> CentrifugeSrv \<Rightarrow> err + (ref \<times> CentrifugeSrv)" where
  "getChannel_completion call scopeId ns p s =
     (let i = format_id scopeId ns p
      in case open s i of
           Some channel \<Rightarrow> Inr (channel, s)
         | None \<Rightarrow>
             (case scopes scopeId of
                None \<Rightarrow> Inr (getErrorChannel ''invalid scope'' i scopeId ns p s)
              | Some sc \<Rightarrow>
                  (let channel = length (heap s);
                       obj = (new_CentrifugeLiveChannel i scopeId ns p)
                               \<lparr>shutdownCallback := Some (OpenDelete i)\<rparr>;
                       s1 = s\<lparr>heap := heap s @ [Centrifuge obj]\<rparr>;
                       s2 = s1\<lparr>open := (open s1)(i \<mapsto> channel)\<rparr>
                   in case call_initChannel call sc channel ns s2 of
                        Inl e \<Rightarrow> Inl e
                      | Inr s3 \<Rightarrow> Inr (channel, s3))))"

text \<open>Two scopes for the examples: the call returns, the call throws.\<close>

definition call_returns :: scope_call where
  "call_returns g ns = Inr ()"

definition call_throws :: "err \<Rightarrow> scope_call" where
  "call_throws e g ns = Inl e"

section \<open>What each operation does to the state\<close>

lemma channel_at_set_task [simp]: "channel_at (set_task r t s) r' = channel_at s r'"
  by (simp add: channel_at_def set_task_def)

lemma channel_at_open_update [simp]: "channel_at (s\<lparr>open := m\<rparr>) r = channel_at s r"
  by (simp add: channel_at_def)

lemma channel_at_update_channel:
  "channel_at (update_channel r f s) r' =
     (if r' = r then map_option f (channel_at s r) else channel_at s r')"
  by (cases "r' = r")
     (auto simp: channel_at_def update_channel_def nth_list_update
           split: LiveChannel.splits option.splits)

lemma update_channel_fields [simp]:
  "open (update_channel r f s) = open s"
  "tasks (update_channel r f s) = tasks s"
  "centrifuge_connected (update_channel r f s) = centrifuge_connected s"
  "connectListener (update_channel r f s) = connectListener s"
  "connectionBlocker (update_channel r f s) = connectionBlocker s"
  "connectionState (update_channel r f s) = connectionState s"
  "length (heap (update_channel r f s)) = length (heap s)"
  by (simp_all add: update_channel_def split: option.splits)

lemma set_task_fields [simp]:
  "open (set_task r t s) = open s"
  "heap (set_task r t s) = heap s"
  "tasks (set_task r t s) = (tasks s)(r \<mapsto> t)"
  "centrifuge_connected (set_task r t s) = centrifuge_connected s"
  "connectListener (set_task r t s) = connectListener s"
  "connectionBlocker (set_task r t s) = connectionBlocker s"
  "connectionState (set_task r t s) = connectionState s"
  by (simp_all add: set_task_def)

lemma run_callback_fields [simp]:
  "channel_at (run_callback cb s) r = channel_at s r"
  "heap (run_callback cb s) = heap s"
  "tasks (run_callback cb s) = tasks s"
  "centrifuge_connected (run_callback cb s) = centrifuge_connected s"
  "connectListener (run_callback cb s) = connectListener s"
  "connectionBlocker (run_callback cb s) = connectionBlocker s"
  "connectionState (run_callback cb s) = connectionState s"
  by (cases cb; simp)+

lemma open_run_callback:
  "open (run_callback cb s) = (case cb of OpenDelete i \<Rightarrow> (open s)(i := None))"
  by (cases cb) simp

lemma channel_at_disconnect:
  "channel_at (disconnect r s) r' =
     (if r' = r then map_option (\<lambda>c. c\<lparr>state := Shutdown, subscription := None\<rparr>) (channel_at s r)
      else channel_at s r')"
  by (cases "channel_at s r")
     (auto simp: disconnect_def channel_at_update_channel Let_def split: option.splits callback.splits)

lemma open_disconnect:
  "open (disconnect r s) =
     (case channel_at s r of
        None \<Rightarrow> open s
      | Some ch \<Rightarrow> (case shutdownCallback ch of
                      None \<Rightarrow> open s
                    | Some (OpenDelete i) \<Rightarrow> (open s)(i := None)))"
  by (auto simp: disconnect_def Let_def open_run_callback split: option.splits callback.splits)

lemma disconnect_fields [simp]:
  "tasks (disconnect r s) = tasks s"
  "centrifuge_connected (disconnect r s) = centrifuge_connected s"
  "connectListener (disconnect r s) = connectListener s"
  "connectionBlocker (disconnect r s) = connectionBlocker s"
  "connectionState (disconnect r s) = connectionState s"
  "length (heap (disconnect r s)) = length (heap s)"
  by (auto simp: disconnect_def Let_def split: option.splits callback.splits)

lemma channel_at_append:
  "channel_at (s\<lparr>heap := heap s @ [x]\<rparr>) r =
     (if r < length (heap s) then channel_at s r
      else if r = length (heap s) then (case x of Centrifuge ch \<Rightarrow> Some ch | ErrorCh e \<Rightarrow> None)
      else None)"
  by (auto simp: channel_at_def nth_append)

lemma channel_at_None_beyond: "length (heap s) \<le> r \<Longrightarrow> channel_at s r = None"
  by (simp add: channel_at_def)

lemma channel_at_shutdownWithError:
  "channel_at (shutdownWithError r e s) r' =
     (if r' = r
      then map_option (\<lambda>c. c\<lparr>error := Some e, state := Shutdown, subscription := None\<rparr>)
             (channel_at s r)
      else channel_at s r')"
  by (cases "channel_at s r")
     (auto simp: shutdownWithError_def channel_at_disconnect channel_at_update_channel)

lemma open_shutdownWithError:
  "open (shutdownWithError r e s) = open (disconnect r s)"
  by (cases "channel_at s r")
     (auto simp: shutdownWithError_def open_disconnect channel_at_update_channel
           split: option.splits callback.splits)

lemma shutdownWithError_fields [simp]:
  "tasks (shutdownWithError r e s) = tasks s"
  "centrifuge_connected (shutdownWithError r e s) = centrifuge_connected s"
  "connectListener (shutdownWithError r e s) = connectListener s"
  "connectionBlocker (shutdownWithError r e s) = connectionBlocker s"
  "connectionState (shutdownWithError r e s) = connectionState s"
  "length (heap (shutdownWithError r e s)) = length (heap s)"
  by (simp_all add: shutdownWithError_def)

lemma channel_at_init_catch:
  "channel_at (init_catch r e s) r' = channel_at (shutdownWithError r e s) r'"
  by (cases "channel_at s r")
     (auto simp: init_catch_def Let_def shutdownWithError_def update_channel_def disconnect_def)

lemma open_init_catch:
  "open (init_catch r e s) =
     (case channel_at s r of
        None \<Rightarrow> open s
      | Some ch \<Rightarrow> (open (disconnect r s))(channel_id ch := None))"
  by (auto simp: init_catch_def Let_def open_shutdownWithError split: option.splits)

lemma init_catch_fields [simp]:
  "centrifuge_connected (init_catch r e s) = centrifuge_connected s"
  "connectListener (init_catch r e s) = connectListener s"
  "connectionBlocker (init_catch r e s) = connectionBlocker s"
  "connectionState (init_catch r e s) = connectionState s"
  "length (heap (init_catch r e s)) = length (heap s)"
  by (simp_all add: init_catch_def Let_def split: option.splits)

lemma tasks_init_catch:
  "tasks (init_catch r e s) =
     (case channel_at s r of None \<Rightarrow> tasks s | Some ch \<Rightarrow> (tasks s)(r \<mapsto> Caught e))"
  by (simp add: init_catch_def Let_def split: option.splits)

lemma initChannel_subscribe_fields [simp]:
  "open (initChannel_subscribe r cfg sub s) = open s"
  "centrifuge_connected (initChannel_subscribe r cfg sub s) = centrifuge_connected s"
  "connectListener (initChannel_subscribe r cfg sub s) = connectListener s"
  "connectionBlocker (initChannel_subscribe r cfg sub s) = connectionBlocker s"
  "connectionState (initChannel_subscribe r cfg sub s) = connectionState s"
  "length (heap (initChannel_subscribe r cfg sub s)) = length (heap s)"
  by (simp_all add: initChannel_subscribe_def Let_def split: option.splits sum.splits)

lemma initalize_fields [simp]:
  "open (initalize r cfg s) = open s"
  "tasks (initalize r cfg s) = tasks s"
  "centrifuge_connected (initalize r cfg s) = centrifuge_connected s"
  "connectListener (initalize r cfg s) = connectListener s"
  "connectionBlocker (initalize r cfg s) = connectionBlocker s"
  "connectionState (initalize r cfg s) = connectionState s"
  "length (heap (initalize r cfg s)) = length (heap s)"
  by (simp_all add: initalize_def)

lemma channel_at_initalize:
  "channel_at (initalize r cfg s) r' =
     (if r' = r then map_option (\<lambda>c. c\<lparr>config := Some cfg\<rparr>) (channel_at s r)
      else channel_at s r')"
  by (simp add: initalize_def channel_at_update_channel)

lemma initChannel_support_fields [simp]:
  "open (initChannel_support r support sub s) = open s"
  "centrifuge_connected (initChannel_support r support sub s) = centrifuge_connected s"
  "connectListener (initChannel_support r support sub s) = connectListener s"
  "connectionBlocker (initChannel_support r support sub s) = connectionBlocker s"
  "connectionState (initChannel_support r support sub s) = connectionState s"
  "length (heap (initChannel_support r support sub s)) = length (heap s)"
  by (simp_all add: initChannel_support_def Let_def split: option.splits sum.splits)

lemma channel_at_initChannel_subscribe:
  "channel_at (initChannel_subscribe r cfg sub s) r' =
     (if r' = r
      then map_option
             (\<lambda>c. c\<lparr>publish :=
                        (if canPublish cfg = Some (Inr True)
                         then Some (CentrifugePublish (channel_id c)) else publish c),
                     subscription :=
                        (case canPublish cfg of
                           Some (Inl e) \<Rightarrow> subscription c
                         | _ \<Rightarrow> (case sub of Inl e \<Rightarrow> subscription c | Inr h \<Rightarrow> Some h))\<rparr>)
             (channel_at s r)
      else channel_at s r')"
  by (cases "channel_at s r"; cases sub; cases "canPublish cfg = Some (Inr True)")
     (auto simp: initChannel_subscribe_def Let_def channel_at_update_channel
           split: option.splits sum.splits)

lemma tasks_initChannel_subscribe:
  "tasks (initChannel_subscribe r cfg sub s) =
     (case channel_at s r of
        None \<Rightarrow> tasks s
      | Some ch \<Rightarrow>
          (tasks s)(r \<mapsto>
            (case canPublish cfg of
               Some (Inl e) \<Rightarrow> Rejected e
             | _ \<Rightarrow> (case sub of Inl e \<Rightarrow> Rejected e | Inr h \<Rightarrow> Fulfilled cfg))))"
  by (auto simp: initChannel_subscribe_def Let_def split: option.splits sum.splits)

lemma channel_at_getChannel:
  "channel_at (snd (getChannel sc ns p s)) r =
     (if r < length (heap s) then channel_at s r
      else if r = length (heap s) \<and> open s (format_id sc ns p) = None \<and> scopes sc \<noteq> None
      then Some ((new_CentrifugeLiveChannel (format_id sc ns p) sc ns p)
                   \<lparr>shutdownCallback := Some (OpenDelete (format_id sc ns p))\<rparr>)
      else None)"
  by (auto simp: getChannel_def getErrorChannel_def initChannel_def Let_def channel_at_append
                 channel_at_None_beyond
           split: option.splits scope_entry.splits)

lemma open_getChannel:
  "open (snd (getChannel sc ns p s)) =
     (if open s (format_id sc ns p) = None \<and> scopes sc \<noteq> None
      then (open s)(format_id sc ns p \<mapsto> length (heap s)) else open s)"
  by (auto simp: getChannel_def getErrorChannel_def initChannel_def Let_def
           split: option.splits scope_entry.splits)

lemma tasks_getChannel:
  "tasks (snd (getChannel sc ns p s)) =
     (if open s (format_id sc ns p) = None
      then (case scopes sc of
              None \<Rightarrow> tasks s
            | Some Inherited \<Rightarrow>
                (tasks s)(length (heap s) \<mapsto> Rejected ''scope.getChannelSupport is not a function'')
            | Some (Scope g) \<Rightarrow> (tasks s)(length (heap s) \<mapsto> AwaitSupport))
      else tasks s)"
  by (auto simp: getChannel_def getErrorChannel_def initChannel_def Let_def
           split: option.splits scope_entry.splits)

lemma getChannel_fields [simp]:
  "centrifuge_connected (snd (getChannel sc ns p s)) = centrifuge_connected s"
  "connectListener (snd (getChannel sc ns p s)) = connectListener s"
  "connectionBlocker (snd (getChannel sc ns p s)) = connectionBlocker s"
  "connectionState (snd (getChannel sc ns p s)) = connectionState s"
  by (auto simp: getChannel_def getErrorChannel_def initChannel_def Let_def
           split: option.splits scope_entry.splits)

lemma length_heap_getChannel: "length (heap s) \<le> length (heap (snd (getChannel sc ns p s)))"
  by (auto simp: getChannel_def getErrorChannel_def initChannel_def Let_def
           split: option.splits scope_entry.splits)

lemma heap_getChannel:
  "heap (snd (getChannel sc ns p s)) =
     (case open s (format_id sc ns p) of
        Some c \<Rightarrow> heap s
      | None \<Rightarrow>
          heap s @
            [case scopes sc of
               None \<Rightarrow> ErrorCh \<lparr>err_msg = ''invalid scope'', err_id = format_id sc ns p,
                                 err_scope = sc, err_namespace = ns, err_path = p\<rparr>
             | Some x \<Rightarrow> Centrifuge ((new_CentrifugeLiveChannel (format_id sc ns p) sc ns p)
                                       \<lparr>shutdownCallback := Some (OpenDelete (format_id sc ns p))\<rparr>)])"
  by (auto simp: getChannel_def getErrorChannel_def initChannel_def set_task_def Let_def
           split: option.splits scope_entry.splits)

lemma fst_getChannel:
  "fst (getChannel sc ns p s) =
     (case open s (format_id sc ns p) of Some c \<Rightarrow> c | None \<Rightarrow> length (heap s))"
  by (auto simp: getChannel_def getErrorChannel_def Let_def split: option.splits)

lemma transport_fields [simp]:
  "channel_at (transport_connect s) r = channel_at s r"
  "open (transport_connect s) = open s"
  "tasks (transport_connect s) = tasks s"
  "heap (transport_connect s) = heap s"
  "channel_at (transport_disconnect s) r = channel_at s r"
  "open (transport_disconnect s) = open s"
  "tasks (transport_disconnect s) = tasks s"
  "heap (transport_disconnect s) = heap s"
  "centrifuge_connected (transport_disconnect s) = False"
  "connectionBlocker (transport_disconnect s) = connectionBlocker s"
  "connectListener (transport_disconnect s) = connectListener s"
  "connectionState (transport_disconnect s) = connectionState s @ [False]"
  "centrifuge_connected (transport_connect s) = True"
  "connectionBlocker (transport_connect s) = (connectListener s \<or> connectionBlocker s)"
  "connectListener (transport_connect s) = False"
  "connectionState (transport_connect s) = connectionState s @ [True]"
  by (simp_all add: transport_connect_def transport_disconnect_def onConnect_def
        onDisconnect_def run_connectListener_def channel_at_def Let_def)

section \<open>The invariants are kept by every event\<close>

lemma channels_ok_step:
  assumes "channels_ok s"
  shows "channels_ok (step e s)"
proof (cases e)
  case (GetChannel sc ns p)
  with assms show ?thesis
    by (auto simp: channels_ok_def channel_at_getChannel new_CentrifugeLiveChannel_def
             split: if_splits)
next
  case (SupportSettled r support sub)
  with assms show ?thesis
    by (auto simp: channels_ok_def initChannel_support_def Let_def
                   channel_at_initChannel_subscribe channel_at_initalize
             split: option.splits init_task.splits sum.splits if_splits)
next
  case (BlockerResolved r sub)
  with assms show ?thesis
    by (auto simp: channels_ok_def channel_at_initChannel_subscribe
             split: option.splits init_task.splits if_splits)
next
  case (RunCatch r)
  with assms show ?thesis
    by (auto simp: channels_ok_def channel_at_init_catch channel_at_shutdownWithError
             split: option.splits init_task.splits if_splits)
next
  case TransportConnect
  with assms show ?thesis by (simp add: channels_ok_def)
next
  case TransportDisconnect
  with assms show ?thesis by (simp add: channels_ok_def)
next
  case (ChannelDisconnect r)
  with assms show ?thesis
    by (auto simp: channels_ok_def channel_at_disconnect split: if_splits)
qed

lemma registry_ok_bound: "registry_ok s \<Longrightarrow> open s i = Some r \<Longrightarrow> r < length (heap s)"
  by (auto simp: registry_ok_def channel_at_def split: if_splits)

lemma step_channel_id:
  assumes "r < length (heap s)"
  shows "map_option channel_id (channel_at (step e s) r) = map_option channel_id (channel_at s r)"
proof (cases e)
  case (GetChannel sc ns p)
  with assms show ?thesis
    by (simp add: channel_at_getChannel)
next
  case (SupportSettled r' support sub)
  then show ?thesis
    by (simp add: initChannel_support_def Let_def option.map_comp comp_def
                  channel_at_initChannel_subscribe channel_at_initalize
             split: option.splits init_task.splits sum.splits)
next
  case (BlockerResolved r' sub)
  then show ?thesis
    by (simp add: channel_at_initChannel_subscribe option.map_comp comp_def
             split: option.splits init_task.splits)
next
  case (RunCatch r')
  then show ?thesis
    by (simp add: channel_at_init_catch channel_at_shutdownWithError option.map_comp comp_def
             split: option.splits init_task.splits)
next
  case TransportConnect
  then show ?thesis by simp
next
  case TransportDisconnect
  then show ?thesis by simp
next
  case (ChannelDisconnect r')
  then show ?thesis
    by (simp add: channel_at_disconnect option.map_comp comp_def)
qed

lemma step_keeps_channel_id:
  assumes "channel_at s r = Some ch"
  shows "\<exists>ch'. channel_at (step e s) r = Some ch' \<and> channel_id ch' = channel_id ch"
proof -
  from assms have "r < length (heap s)"
    by (auto simp: channel_at_def split: if_splits)
  from step_channel_id[OF this, of e] assms show ?thesis
    by (cases "channel_at (step e s) r") auto
qed

lemma open_step_cases:
  assumes "open (step e s) i = Some r"
  shows "open s i = Some r \<or>
         (\<exists>sc ns p. e = GetChannel sc ns p \<and> i = format_id sc ns p \<and> r = length (heap s) \<and>
                     open s i = None \<and> scopes sc \<noteq> None)"
proof (cases e)
  case (GetChannel sc ns p)
  with assms show ?thesis
    by (auto simp: open_getChannel split: if_splits)
next
  case (SupportSettled r' support sub)
  with assms show ?thesis
    by (auto split: option.splits init_task.splits)
next
  case (BlockerResolved r' sub)
  with assms show ?thesis
    by (auto split: option.splits init_task.splits if_splits)
next
  case (RunCatch r')
  with assms show ?thesis
    by (auto simp: open_init_catch open_disconnect
             split: option.splits init_task.splits if_splits callback.splits)
next
  case TransportConnect
  with assms show ?thesis by simp
next
  case TransportDisconnect
  with assms show ?thesis by simp
next
  case (ChannelDisconnect r')
  with assms show ?thesis
    by (auto simp: open_disconnect split: option.splits if_splits callback.splits)
qed

lemma registry_ok_step:
  assumes "registry_ok s"
  shows "registry_ok (step e s)"
  unfolding registry_ok_def
proof (intro allI impI)
  fix i r
  assume o: "open (step e s) i = Some r"
  from open_step_cases[OF o]
  show "\<exists>ch. channel_at (step e s) r = Some ch \<and> channel_id ch = i"
  proof
    assume "open s i = Some r"
    with assms obtain ch where "channel_at s r = Some ch" "channel_id ch = i"
      by (auto simp: registry_ok_def)
    with step_keeps_channel_id[of s r ch e] show ?thesis by auto
  next
    assume "\<exists>sc ns p. e = GetChannel sc ns p \<and> i = format_id sc ns p \<and> r = length (heap s) \<and>
                     open s i = None \<and> scopes sc \<noteq> None"
    then show ?thesis
      by (auto simp: channel_at_getChannel new_CentrifugeLiveChannel_def)
  qed
qed

lemma publish_inv_frame:
  "publish_inv c t \<Longrightarrow> publish_inv (map_option (\<lambda>c. c\<lparr>state := st, subscription := sb\<rparr>) c) t"
  "publish_inv c t \<Longrightarrow> publish_inv (map_option (\<lambda>c. c\<lparr>error := er, state := st, subscription := sb\<rparr>) c) t"
  by (cases c; cases t; (cases "the t")?; simp)+

lemma publish_inv_rejected [simp]:
  "publish_inv c (Some (Rejected e))" "publish_inv c (Some (Caught e))"
  by (cases c; simp)+

lemma publish_ok_step:
  assumes "publish_ok s"
  shows "publish_ok (step e s)"
  unfolding publish_ok_def
proof
  fix q
  from assms have H: "\<And>x. publish_inv (channel_at s x) (tasks s x)"
    by (simp add: publish_ok_def)
  show "publish_inv (channel_at (step e s) q) (tasks (step e s) q)"
  proof (cases e)
    case (GetChannel sc ns p)
    with H[of q] show ?thesis
      by (auto simp: channel_at_getChannel tasks_getChannel
                     new_CentrifugeLiveChannel_def channel_at_None_beyond
               split: option.splits scope_entry.splits)
  next
    case (SupportSettled r support sub)
    with H[of q] H[of r] show ?thesis
      by (auto simp: initChannel_support_def Let_def isConnected_def
                     channel_at_initChannel_subscribe channel_at_initalize
                     tasks_initChannel_subscribe publish_inv_frame
               split: option.splits init_task.splits sum.splits)
  next
    case (BlockerResolved r sub)
    with H[of q] H[of r] show ?thesis
      by (auto simp: channel_at_initChannel_subscribe tasks_initChannel_subscribe
               split: option.splits init_task.splits sum.splits)
  next
    case (RunCatch r)
    with H[of q] show ?thesis
      by (auto simp: channel_at_init_catch channel_at_shutdownWithError
                     tasks_init_catch publish_inv_frame
               split: option.splits init_task.splits)
  next
    case TransportConnect
    with H[of q] show ?thesis by simp
  next
    case TransportDisconnect
    with H[of q] show ?thesis by simp
  next
    case (ChannelDisconnect r)
    with H[of q] show ?thesis
      by (auto simp: channel_at_disconnect publish_inv_frame)
  qed
qed

lemma not_yet_connected_step:
  assumes "not_yet_connected s" "e \<noteq> TransportConnect"
  shows "not_yet_connected (step e s)"
proof (cases e)
  case (GetChannel sc ns p)
  with assms show ?thesis
    by (auto simp: not_yet_connected_def channel_at_getChannel
                   new_CentrifugeLiveChannel_def
             split: if_splits)
next
  case (SupportSettled r support sub)
  with assms show ?thesis
    by (auto simp: not_yet_connected_def initChannel_support_def Let_def isConnected_def
                   channel_at_initalize
             split: option.splits init_task.splits sum.splits if_splits)
next
  case (BlockerResolved r sub)
  with assms show ?thesis
    by (auto simp: not_yet_connected_def split: option.splits init_task.splits)
next
  case (RunCatch r)
  with assms show ?thesis
    by (auto simp: not_yet_connected_def channel_at_init_catch channel_at_shutdownWithError
             split: option.splits init_task.splits if_splits)
next
  case TransportConnect
  with assms show ?thesis by simp
next
  case TransportDisconnect
  with assms show ?thesis
    by (simp add: not_yet_connected_def)
next
  case (ChannelDisconnect r)
  with assms show ?thesis
    by (auto simp: not_yet_connected_def channel_at_disconnect split: if_splits)
qed

lemma channel_at_new [simp]: "channel_at (CentrifugeSrv_new c) r = None"
  by (simp add: channel_at_def CentrifugeSrv_new_def)

lemma invariants_new:
  "registry_ok (CentrifugeSrv_new c)" "channels_ok (CentrifugeSrv_new c)"
  "publish_ok (CentrifugeSrv_new c)" "not_yet_connected (CentrifugeSrv_new False)"
  by (simp_all add: registry_ok_def channels_ok_def publish_ok_def not_yet_connected_def)
     (simp_all add: CentrifugeSrv_new_def)

lemma registry_ok_run: "registry_ok s \<Longrightarrow> registry_ok (run es s)"
  by (induction es arbitrary: s) (simp_all add: registry_ok_step)

lemma channels_ok_run: "channels_ok s \<Longrightarrow> channels_ok (run es s)"
  by (induction es arbitrary: s) (simp_all add: channels_ok_step)

lemma publish_ok_run: "publish_ok s \<Longrightarrow> publish_ok (run es s)"
  by (induction es arbitrary: s) (simp_all add: publish_ok_step)

lemma not_yet_connected_run:
  "not_yet_connected s \<Longrightarrow> TransportConnect \<notin> set es \<Longrightarrow> not_yet_connected (run es s)"
  by (induction es arbitrary: s) (auto simp: not_yet_connected_step)

lemma tasks_ok_step:
  assumes "tasks_ok s"
  shows "tasks_ok (step e s)"
  unfolding tasks_ok_def
proof (intro allI impI)
  fix q
  assume t: "tasks (step e s) q \<noteq> None"
  from assms have H: "\<And>x. tasks s x \<noteq> None \<Longrightarrow> channel_at s x \<noteq> None"
    by (simp add: tasks_ok_def)
  have K: "\<And>x. channel_at s x \<noteq> None \<Longrightarrow> channel_at (step e s) x \<noteq> None"
    using step_keeps_channel_id by fastforce
  show "channel_at (step e s) q \<noteq> None"
  proof (cases "tasks s q \<noteq> None")
    case True
    then show ?thesis using H K by blast
  next
    case False
    with t show ?thesis
    proof (cases e)
      case (GetChannel sc ns p)
      with t False show ?thesis
        by (auto simp: tasks_getChannel channel_at_getChannel
                 split: if_splits option.splits scope_entry.splits)
    next
      case (SupportSettled r support sub)
      with t False K[of r] show ?thesis
        by (auto simp: initChannel_support_def Let_def tasks_initChannel_subscribe
                       channel_at_initalize
                 split: option.splits init_task.splits sum.splits if_splits)
    next
      case (BlockerResolved r sub)
      with t False show ?thesis
        by (auto simp: tasks_initChannel_subscribe
                 split: option.splits init_task.splits sum.splits if_splits)
    next
      case (RunCatch r)
      with t False show ?thesis
        by (auto simp: tasks_init_catch split: option.splits init_task.splits if_splits)
    qed simp_all
  qed
qed

lemma tasks_ok_run: "tasks_ok s \<Longrightarrow> tasks_ok (run es s)"
  by (induction es arbitrary: s) (simp_all add: tasks_ok_step)

lemma tasks_ok_new: "tasks_ok (CentrifugeSrv_new c)"
  by (simp add: tasks_ok_def CentrifugeSrv_new_def)

section \<open>The registry between two calls\<close>

lemma getChannel_registered: "open s (format_id sc ns p) = Some c \<Longrightarrow> getChannel sc ns p s = (c, s)"
  by (simp add: getChannel_def)

lemma getChannel_registers:
  "scopes sc \<noteq> None \<Longrightarrow>
   open (snd (getChannel sc ns p s)) (format_id sc ns p) = Some (fst (getChannel sc ns p s))"
  by (auto simp: getChannel_def Let_def initChannel_def split: option.splits scope_entry.splits)

lemma open_kept_step:
  assumes "channels_ok s" and "open s i = Some c" and "\<not> shuts_down i s e"
  shows "open (step e s) i = Some c"
proof (cases e)
  case (GetChannel sc ns p)
  with assms show ?thesis by (auto simp: open_getChannel)
next
  case (SupportSettled r support sub)
  with assms show ?thesis by (simp split: option.splits init_task.splits)
next
  case (BlockerResolved r sub)
  with assms show ?thesis by (simp split: option.splits init_task.splits)
next
  case (RunCatch r)
  show ?thesis
  proof (cases "channel_at s r")
    case None
    with RunCatch assms show ?thesis
      by (simp add: open_init_catch split: option.splits init_task.splits)
  next
    case (Some ch)
    with assms(1) have cb: "shutdownCallback ch = Some (OpenDelete (channel_id ch))"
      by (auto simp: channels_ok_def)
    show ?thesis
    proof (cases "is_rejected (tasks s r)")
      case True
      with Some assms(3) RunCatch have "channel_id ch \<noteq> i" by auto
      with RunCatch Some cb assms(2) show ?thesis
        by (simp add: open_init_catch open_disconnect split: option.splits init_task.splits)
    next
      case False
      with RunCatch assms(2) show ?thesis
        by (auto split: option.splits init_task.splits)
    qed
  qed
next
  case (ChannelDisconnect r)
  show ?thesis
  proof (cases "channel_at s r")
    case None
    with ChannelDisconnect assms show ?thesis
      by (simp add: open_disconnect)
  next
    case (Some ch)
    with assms(1) have cb: "shutdownCallback ch = Some (OpenDelete (channel_id ch))"
      by (auto simp: channels_ok_def)
    from Some assms(3) ChannelDisconnect have "channel_id ch \<noteq> i" by auto
    with ChannelDisconnect Some cb assms(2) show ?thesis
      by (simp add: open_disconnect)
  qed
qed (use assms in simp_all)

lemma open_kept_run:
  "channels_ok s \<Longrightarrow> open s i = Some c \<Longrightarrow> undisturbed i es s \<Longrightarrow> open (run es s) i = Some c"
proof (induction es arbitrary: s)
  case Nil
  then show ?case by simp
next
  case (Cons e es)
  from Cons.prems have "channels_ok (step e s)" "open (step e s) i = Some c"
    "undisturbed i es (step e s)"
    by (simp_all add: channels_ok_step open_kept_step)
  then show ?case using Cons.IH by simp
qed

lemma first_call_registered:
  assumes "tasks_ok s" "registry_ok s"
    and "tasks (snd (getChannel sc ns p s)) (fst (getChannel sc ns p s)) \<noteq> None"
  shows "open (snd (getChannel sc ns p s)) (format_id sc ns p) = Some (fst (getChannel sc ns p s))"
proof (cases "open s (format_id sc ns p)")
  case (Some c)
  then show ?thesis by (simp add: getChannel_registered)
next
  case None
  show ?thesis
  proof (cases "scopes sc")
    case (Some x)
    then show ?thesis by (simp add: getChannel_registers)
  next
    case n: None
    from assms(1) have "tasks s (length (heap s)) = None"
      by (auto simp: tasks_ok_def channel_at_None_beyond)
    with None n assms(3) show ?thesis
      by (simp add: tasks_getChannel fst_getChannel)
  qed
qed

text \<open>The definitions to unfold when a concrete run is evaluated.\<close>

lemmas service_defs =
  CentrifugeSrv_new_def transport_connect_def transport_disconnect_def onConnect_def
  onDisconnect_def run_connectListener_def getChannel_def getErrorChannel_def format_id_def
  scopes_def initChannel_def set_task_def new_CentrifugeLiveChannel_def initChannel_support_def
  channel_at_def support_with_def example_config_def initalize_def update_channel_def
  isConnected_def initChannel_subscribe_def init_catch_def shutdownWithError_def
  disconnect_def Let_def

section \<open>The claims\<close>

text \<open>
  Claim C1, as stated, fails in its second part: every shutdown deletes the registry entry
  by id. By design, when the channel is disconnected between two lookups: the
  initialization of channel 0 is still awaiting support, and the second lookup builds
  channel 1. And the same deletion also hits a newer channel with the same id: channel 0
  was disconnected and channel 1 registered; the initialization of channel 0 then fails
  and its \<open>catch\<close> handler deletes the id, so channel 1, still Pending with its
  initialization awaiting support, is no longer found and the next lookup builds
  channel 2.
\<close>

theorem same_instance_counterexample:
  "fst (getChannel ''grafana'' ''a'' ''b'' (CentrifugeSrv_new False)) = 0 \<and>
   tasks (run [ChannelDisconnect 0] (snd (getChannel ''grafana'' ''a'' ''b'' (CentrifugeSrv_new False)))) 0
     = Some AwaitSupport \<and>
   fst (getChannel ''grafana'' ''a'' ''b''
          (run [ChannelDisconnect 0]
             (snd (getChannel ''grafana'' ''a'' ''b'' (CentrifugeSrv_new False))))) = 1 \<and>
   fst (getChannel ''grafana'' ''a'' ''b''
          (run [GetChannel ''grafana'' ''a'' ''b'', ChannelDisconnect 0] (CentrifugeSrv_new False))) = 1 \<and>
   tasks (run [SupportSettled 0 (Inr None) (Inr 1), RunCatch 0]
            (snd (getChannel ''grafana'' ''a'' ''b''
               (run [GetChannel ''grafana'' ''a'' ''b'', ChannelDisconnect 0] (CentrifugeSrv_new False))))) 1
     = Some AwaitSupport \<and>
   map_option state (channel_at (run [SupportSettled 0 (Inr None) (Inr 1), RunCatch 0]
            (snd (getChannel ''grafana'' ''a'' ''b''
               (run [GetChannel ''grafana'' ''a'' ''b'', ChannelDisconnect 0] (CentrifugeSrv_new False))))) 1)
     = Some Pending \<and>
   fst (getChannel ''grafana'' ''a'' ''b''
          (run [SupportSettled 0 (Inr None) (Inr 1), RunCatch 0]
            (snd (getChannel ''grafana'' ''a'' ''b''
               (run [GetChannel ''grafana'' ''a'' ''b'', ChannelDisconnect 0] (CentrifugeSrv_new False)))))) = 2"
  by (simp add: service_defs)

text \<open>
  Claim C1, amended. While an id is registered in \<open>open\<close>, every \<open>getChannel\<close> whose
  address formats to that id returns the registered reference and leaves the service as it
  is: no new channel is built. In particular, in every reachable state, when a
  \<open>getChannel\<close> has returned a channel with an initialization (a new one or the
  registered one), a later \<open>getChannel\<close> for the same address returns the same reference,
  whether or not that initialization has completed and whatever else happens in between
  (the transport connecting, other lookups, shutdowns of channels with other ids), provided
  no channel with that id is shut down between the two calls.
\<close>

theorem getChannel_same_instance:
  "(open s (format_id scopeId ns p) = Some c \<longrightarrow> getChannel scopeId ns p s = (c, s)) \<and>
   (tasks (snd (getChannel scopeId ns p (run es0 (CentrifugeSrv_new c0))))
          (fst (getChannel scopeId ns p (run es0 (CentrifugeSrv_new c0)))) \<noteq> None \<and>
    undisturbed (format_id scopeId ns p) es
       (snd (getChannel scopeId ns p (run es0 (CentrifugeSrv_new c0)))) \<longrightarrow>
      fst (getChannel scopeId ns p
             (run es (snd (getChannel scopeId ns p (run es0 (CentrifugeSrv_new c0)))))) =
      fst (getChannel scopeId ns p (run es0 (CentrifugeSrv_new c0))))"
proof (intro conjI impI)
  assume "open s (format_id scopeId ns p) = Some c"
  then show "getChannel scopeId ns p s = (c, s)" by (rule getChannel_registered)
next
  let ?s = "run es0 (CentrifugeSrv_new c0)"
  let ?s1 = "snd (getChannel scopeId ns p ?s)"
  assume a: "tasks ?s1 (fst (getChannel scopeId ns p ?s)) \<noteq> None \<and>
             undisturbed (format_id scopeId ns p) es ?s1"
  have ok: "tasks_ok ?s" "registry_ok ?s"
    by (simp_all add: tasks_ok_run tasks_ok_new registry_ok_run invariants_new)
  have "channels_ok ?s" by (simp add: channels_ok_run invariants_new)
  from channels_ok_step[OF this, of "GetChannel scopeId ns p"]
  have c1: "channels_ok ?s1" by simp
  from a have "open ?s1 (format_id scopeId ns p) = Some (fst (getChannel scopeId ns p ?s))"
    using first_call_registered[OF ok] by blast
  with c1 a have "open (run es ?s1) (format_id scopeId ns p) = Some (fst (getChannel scopeId ns p ?s))"
    by (simp add: open_kept_run)
  then show "fst (getChannel scopeId ns p (run es ?s1)) = fst (getChannel scopeId ns p ?s)"
    by (simp add: getChannel_registered)
qed

text \<open>
  Claim C2. When the initialization of a channel has raised \<open>e\<close> (its promise is
  rejected with \<open>e\<close>: every \<open>throw\<close> of \<open>initChannel\<close> and every throwing call in it
  ends there, see \<open>init_exceptions_reject\<close> and \<open>blocker_exceptions_reject\<close> below), the
  \<open>catch\<close> handler leaves the channel in state Shutdown with error \<open>e\<close>, the channel's id
  maps to nothing in the registry, and the rejection is handled: it stays in the promise
  and is not thrown to any caller.
\<close>

theorem init_failure_contained:
  assumes "channel_at s r = Some ch" and "tasks s r = Some (Rejected e)"
  shows "map_option state (channel_at (step (RunCatch r) s) r) = Some Shutdown \<and>
         map_option error (channel_at (step (RunCatch r) s) r) = Some (Some e) \<and>
         open (step (RunCatch r) s) (channel_id ch) = None \<and>
         tasks (step (RunCatch r) s) r = Some (Caught e)"
  using assms
  by (simp add: channel_at_init_catch channel_at_shutdownWithError open_init_catch
                tasks_init_catch)

text \<open>
  Every way the body of \<open>initChannel\<close> can raise rejects the promise with that error:
  the support promise rejects, there is no support, \<open>getChannelConfig\<close> throws, there is
  no config, \<open>canPublish\<close> throws, \<open>subscribe\<close> throws.
\<close>

lemma init_exceptions_reject:
  assumes "channel_at s r = Some ch" and "tasks s r = Some AwaitSupport"
  shows "tasks (step (SupportSettled r (Inl e) sub) s) r = Some (Rejected e)"
    and "tasks (step (SupportSettled r (Inr None) sub) s) r =
           Some (Rejected (namespace ch @ ''does not support streaming''))"
    and "support (path ch) = Inl e \<Longrightarrow>
         tasks (step (SupportSettled r (Inr (Some support)) sub) s) r = Some (Rejected e)"
    and "support (path ch) = Inr None \<Longrightarrow>
         tasks (step (SupportSettled r (Inr (Some support)) sub) s) r =
           Some (Rejected (''unknown path: '' @ path ch))"
    and "support (path ch) = Inr (Some cfg) \<Longrightarrow> centrifuge_connected s \<Longrightarrow>
         canPublish cfg = Some (Inl e) \<Longrightarrow>
         tasks (step (SupportSettled r (Inr (Some support)) sub) s) r = Some (Rejected e)"
    and "support (path ch) = Inr (Some cfg) \<Longrightarrow> centrifuge_connected s \<Longrightarrow>
         (\<forall>x. canPublish cfg \<noteq> Some (Inl x)) \<Longrightarrow>
         tasks (step (SupportSettled r (Inr (Some support)) (Inl e)) s) r = Some (Rejected e)"
  using assms
  by (auto simp: initChannel_support_def isConnected_def Let_def tasks_initChannel_subscribe
                 channel_at_initalize split: option.splits sum.splits)

lemma blocker_exceptions_reject:
  assumes "channel_at s r = Some ch" and "tasks s r = Some (AwaitBlocker cfg)"
    and "connectionBlocker s"
  shows "canPublish cfg = Some (Inl e) \<Longrightarrow>
         tasks (step (BlockerResolved r sub) s) r = Some (Rejected e)"
    and "(\<forall>x. canPublish cfg \<noteq> Some (Inl x)) \<Longrightarrow>
         tasks (step (BlockerResolved r (Inl e)) s) r = Some (Rejected e)"
  using assms
  by (auto simp: tasks_initChannel_subscribe split: option.splits sum.splits)

lemma channel_at_bound: "channel_at s r = Some ch \<Longrightarrow> r < length (heap s)"
  by (auto simp: channel_at_def split: if_splits)

text \<open>
  Claim C3, as stated, fails. The blocker is resolved by the first connect event and stays
  resolved. After connect and disconnect the transport is not connected; a channel created
  then (object 0 did not exist before) resumes from \<open>await this.connectionBlocker\<close>
  without any further connect event and its subscription is attached while the transport
  is still not connected.
\<close>

theorem first_connect_counterexample:
  "\<not> centrifuge_connected (run [TransportConnect, TransportDisconnect] (CentrifugeSrv_new False)) \<and>
   channel_at (run [TransportConnect, TransportDisconnect] (CentrifugeSrv_new False)) 0 = None \<and>
   \<not> centrifuge_connected
       (run [TransportConnect, TransportDisconnect, GetChannel ''grafana'' ''testdata'' ''random-2s-stream'',
             SupportSettled 0 (Inr (Some (support_with (example_config None)))) (Inr 7),
             BlockerResolved 0 (Inr 7)] (CentrifugeSrv_new False)) \<and>
   map_option subscription (channel_at
       (run [TransportConnect, TransportDisconnect, GetChannel ''grafana'' ''testdata'' ''random-2s-stream'',
             SupportSettled 0 (Inr (Some (support_with (example_config None)))) (Inr 7),
             BlockerResolved 0 (Inr 7)] (CentrifugeSrv_new False)) 0) = Some (Some 7)"
  by (simp add: CentrifugeSrv_new_def transport_connect_def transport_disconnect_def
        onConnect_def onDisconnect_def run_connectListener_def getChannel_def format_id_def
        scopes_def initChannel_def set_task_def new_CentrifugeLiveChannel_def
        initChannel_support_def channel_at_def support_with_def example_config_def
        initalize_def update_channel_def isConnected_def initChannel_subscribe_def Let_def)

lemma connectionBlocker_step: "connectionBlocker s \<Longrightarrow> connectionBlocker (step e s)"
  by (cases e) (simp_all split: option.splits init_task.splits)

lemma connectionBlocker_run: "connectionBlocker s \<Longrightarrow> connectionBlocker (run es s)"
  by (induction es arbitrary: s) (simp_all add: connectionBlocker_step)

lemma waiting_step:
  assumes "channel_at s r \<noteq> None" and "tasks s r = Some (AwaitBlocker cfg)" and "\<not> resumes r e"
  shows "channel_at (step e s) r \<noteq> None \<and> tasks (step e s) r = Some (AwaitBlocker cfg)"
proof
  from assms(1) show "channel_at (step e s) r \<noteq> None"
    using step_keeps_channel_id by fastforce
  from assms(1) have lt: "r < length (heap s)"
    by (auto simp: channel_at_def split: if_splits)
  show "tasks (step e s) r = Some (AwaitBlocker cfg)"
  proof (cases e)
    case (GetChannel sc ns p)
    with assms(2) lt show ?thesis
      by (auto simp: tasks_getChannel split: option.splits scope_entry.splits)
  next
    case (SupportSettled r' support sub)
    with assms(2) show ?thesis
      by (auto simp: initChannel_support_def Let_def tasks_initChannel_subscribe
               split: option.splits init_task.splits sum.splits)
  next
    case (BlockerResolved r' sub)
    with assms(2,3) show ?thesis
      by (auto simp: tasks_initChannel_subscribe split: option.splits init_task.splits sum.splits)
  next
    case (RunCatch r')
    with assms(2) show ?thesis
      by (auto simp: tasks_init_catch split: option.splits init_task.splits)
  qed (use assms(2) in simp_all)
qed

lemma waiting_run:
  "channel_at s r \<noteq> None \<Longrightarrow> tasks s r = Some (AwaitBlocker cfg) \<Longrightarrow>
   \<forall>e\<in>set es. \<not> resumes r e \<Longrightarrow>
   channel_at (run es s) r \<noteq> None \<and> tasks (run es s) r = Some (AwaitBlocker cfg)"
proof (induction es arbitrary: s)
  case Nil
  then show ?case by simp
next
  case (Cons e es)
  from Cons.prems have "channel_at (step e s) r \<noteq> None \<and> tasks (step e s) r = Some (AwaitBlocker cfg)"
    by (intro waiting_step) simp_all
  with Cons.prems(3) show ?case using Cons.IH[of "step e s"] by simp
qed

lemma resume_outcome:
  assumes "channel_at s r \<noteq> None" and "tasks s r = Some (AwaitBlocker cfg)" and "connectionBlocker s"
  shows "step (BlockerResolved r sub) s = initChannel_subscribe r cfg sub s"
    and "canPublish cfg = Some (Inl e) \<Longrightarrow>
           tasks (step (BlockerResolved r sub) s) r = Some (Rejected e)"
    and "\<forall>x. canPublish cfg \<noteq> Some (Inl x) \<Longrightarrow>
           tasks (step (BlockerResolved r (Inl e)) s) r = Some (Rejected e)"
    and "\<forall>x. canPublish cfg \<noteq> Some (Inl x) \<Longrightarrow>
           tasks (step (BlockerResolved r (Inr h)) s) r = Some (Fulfilled cfg) \<and>
           map_option subscription (channel_at (step (BlockerResolved r (Inr h)) s) r) = Some (Some h)"
proof -
  from assms(1) obtain ch where ch: "channel_at s r = Some ch" by auto
  show "step (BlockerResolved r sub) s = initChannel_subscribe r cfg sub s"
    using assms by simp
  show "canPublish cfg = Some (Inl e) \<Longrightarrow>
           tasks (step (BlockerResolved r sub) s) r = Some (Rejected e)"
    using assms ch by (simp add: tasks_initChannel_subscribe)
  show "\<forall>x. canPublish cfg \<noteq> Some (Inl x) \<Longrightarrow>
           tasks (step (BlockerResolved r (Inl e)) s) r = Some (Rejected e)"
    using assms ch by (auto simp: tasks_initChannel_subscribe split: option.splits sum.splits)
  show "\<forall>x. canPublish cfg \<noteq> Some (Inl x) \<Longrightarrow>
           tasks (step (BlockerResolved r (Inr h)) s) r = Some (Fulfilled cfg) \<and>
           map_option subscription (channel_at (step (BlockerResolved r (Inr h)) s) r) = Some (Some h)"
  proof
    assume np: "\<forall>x. canPublish cfg \<noteq> Some (Inl x)"
    then show "tasks (step (BlockerResolved r (Inr h)) s) r = Some (Fulfilled cfg)"
      using assms ch by (auto simp: tasks_initChannel_subscribe split: option.splits sum.splits)
    from np show "map_option subscription (channel_at (step (BlockerResolved r (Inr h)) s) r)
                    = Some (Some h)"
      using assms ch
      by (cases "canPublish cfg"; cases "the (canPublish cfg)")
         (simp_all add: channel_at_initChannel_subscribe)
  qed
qed

text \<open>
  Claim C3, amended. On a service constructed while the transport is not connected, as long
  as no connect event has fired: the one shared blocker is pending, no channel has a
  subscription, a continuation suspended on the blocker cannot run, and a channel whose
  config is resolved then suspends on the blocker. The first connect event resolves the
  blocker for good. Whatever happens after it (other channels resuming, the transport
  disconnecting again), a channel suspended there stays suspended until its own
  continuation runs, and that continuation then runs lines 120 to 123: it attaches the
  subscription the transport returns, or the initialization is rejected if \<open>canPublish\<close>
  or \<open>subscribe\<close> throws.
\<close>

theorem waits_for_first_connect:
  assumes "TransportConnect \<notin> set es"
  shows "\<not> connectionBlocker (run es (CentrifugeSrv_new False)) \<and>
         (channel_at (run es (CentrifugeSrv_new False)) r = Some ch \<longrightarrow> subscription ch = None) \<and>
         step (BlockerResolved r sub) (run es (CentrifugeSrv_new False))
           = run es (CentrifugeSrv_new False) \<and>
         (tasks (run es (CentrifugeSrv_new False)) r = Some AwaitSupport \<and>
          channel_at (run es (CentrifugeSrv_new False)) r = Some ch \<and>
          support (path ch) = Inr (Some cfg) \<longrightarrow>
            tasks (step (SupportSettled r (Inr (Some support)) sub)
                     (run es (CentrifugeSrv_new False))) r = Some (AwaitBlocker cfg)) \<and>
         connectionBlocker (run es' (step TransportConnect (run es (CentrifugeSrv_new False)))) \<and>
         (tasks (run es (CentrifugeSrv_new False)) r = Some (AwaitBlocker cfg) \<and>
          channel_at (run es (CentrifugeSrv_new False)) r = Some ch \<and>
          (\<forall>e\<in>set es'. \<not> resumes r e) \<longrightarrow>
            tasks (run es' (step TransportConnect (run es (CentrifugeSrv_new False)))) r
              = Some (AwaitBlocker cfg) \<and>
            step (BlockerResolved r sub)
                 (run es' (step TransportConnect (run es (CentrifugeSrv_new False))))
              = initChannel_subscribe r cfg sub
                 (run es' (step TransportConnect (run es (CentrifugeSrv_new False)))) \<and>
            (canPublish cfg = Some (Inl e) \<longrightarrow>
               tasks (step (BlockerResolved r sub)
                        (run es' (step TransportConnect (run es (CentrifugeSrv_new False))))) r
                 = Some (Rejected e)) \<and>
            ((\<forall>x. canPublish cfg \<noteq> Some (Inl x)) \<longrightarrow>
               tasks (step (BlockerResolved r (Inl e))
                        (run es' (step TransportConnect (run es (CentrifugeSrv_new False))))) r
                 = Some (Rejected e) \<and>
               tasks (step (BlockerResolved r (Inr h))
                        (run es' (step TransportConnect (run es (CentrifugeSrv_new False))))) r
                 = Some (Fulfilled cfg) \<and>
               map_option subscription
                 (channel_at (step (BlockerResolved r (Inr h))
                    (run es' (step TransportConnect (run es (CentrifugeSrv_new False))))) r)
                 = Some (Some h)))"
proof -
  let ?s = "run es (CentrifugeSrv_new False)"
  let ?t = "run es' (step TransportConnect ?s)"
  have n: "not_yet_connected ?s"
    using assms by (simp add: not_yet_connected_run invariants_new)
  then have 1: "\<not> connectionBlocker ?s" by (simp add: not_yet_connected_def)
  have 2: "channel_at ?s r = Some ch \<longrightarrow> subscription ch = None"
    using n by (auto simp: not_yet_connected_def)
  have 3: "step (BlockerResolved r sub) ?s = ?s"
    using 1 by (simp split: option.splits init_task.splits)
  have nc: "\<not> centrifuge_connected ?s" using n by (simp add: not_yet_connected_def)
  have 4: "tasks ?s r = Some AwaitSupport \<and> channel_at ?s r = Some ch \<and>
          support (path ch) = Inr (Some cfg) \<longrightarrow>
            tasks (step (SupportSettled r (Inr (Some support)) sub) ?s) r = Some (AwaitBlocker cfg)"
    using nc by (auto simp: initChannel_support_def isConnected_def Let_def)
  have "connectListener ?s" using n by (simp add: not_yet_connected_def)
  then have "connectionBlocker (step TransportConnect ?s)" by simp
  then have 5: "connectionBlocker ?t" by (rule connectionBlocker_run)
  have 6: "tasks ?s r = Some (AwaitBlocker cfg) \<and> channel_at ?s r = Some ch \<and>
          (\<forall>e\<in>set es'. \<not> resumes r e) \<longrightarrow>
            tasks ?t r = Some (AwaitBlocker cfg) \<and>
            step (BlockerResolved r sub) ?t = initChannel_subscribe r cfg sub ?t \<and>
            (canPublish cfg = Some (Inl e) \<longrightarrow>
               tasks (step (BlockerResolved r sub) ?t) r = Some (Rejected e)) \<and>
            ((\<forall>x. canPublish cfg \<noteq> Some (Inl x)) \<longrightarrow>
               tasks (step (BlockerResolved r (Inl e)) ?t) r = Some (Rejected e) \<and>
               tasks (step (BlockerResolved r (Inr h)) ?t) r = Some (Fulfilled cfg) \<and>
               map_option subscription (channel_at (step (BlockerResolved r (Inr h)) ?t) r)
                 = Some (Some h))"
  proof (intro impI)
    assume a: "tasks ?s r = Some (AwaitBlocker cfg) \<and> channel_at ?s r = Some ch \<and>
          (\<forall>e\<in>set es'. \<not> resumes r e)"
    then have "channel_at (step TransportConnect ?s) r \<noteq> None"
      "tasks (step TransportConnect ?s) r = Some (AwaitBlocker cfg)"
      by simp_all
    from waiting_run[OF this, of es'] a
    have w: "channel_at ?t r \<noteq> None" "tasks ?t r = Some (AwaitBlocker cfg)" by simp_all
    from resume_outcome[OF w 5] w(2)
    show "tasks ?t r = Some (AwaitBlocker cfg) \<and>
            step (BlockerResolved r sub) ?t = initChannel_subscribe r cfg sub ?t \<and>
            (canPublish cfg = Some (Inl e) \<longrightarrow>
               tasks (step (BlockerResolved r sub) ?t) r = Some (Rejected e)) \<and>
            ((\<forall>x. canPublish cfg \<noteq> Some (Inl x)) \<longrightarrow>
               tasks (step (BlockerResolved r (Inl e)) ?t) r = Some (Rejected e) \<and>
               tasks (step (BlockerResolved r (Inr h)) ?t) r = Some (Fulfilled cfg) \<and>
               map_option subscription (channel_at (step (BlockerResolved r (Inr h)) ?t) r)
                 = Some (Some h))"
      by blast
  qed
  from 1 2 3 4 5 6 show ?thesis by blast
qed

text \<open>
  Claim C4, as stated, fails: \<open>getChannel\<close> does not look at the segments. With an empty
  namespace it returns a new channel in state Pending, registered under \<open>grafana//x\<close>.
\<close>

theorem invalid_address_counterexample:
  "\<not> valid_segment '''' \<and>
   fst (getChannel ''grafana'' '''' ''x'' (CentrifugeSrv_new False)) = 0 \<and>
   map_option state (channel_at (snd (getChannel ''grafana'' '''' ''x'' (CentrifugeSrv_new False))) 0)
     = Some Pending \<and>
   open (snd (getChannel ''grafana'' '''' ''x'' (CentrifugeSrv_new False))) ''grafana//x'' = Some 0"
  by (simp add: valid_segment_def getChannel_def format_id_def CentrifugeSrv_new_def scopes_def
        Let_def initChannel_def set_task_def channel_at_def new_CentrifugeLiveChannel_def)

text \<open>
  Claim C4, amended. For an address with an empty segment or a segment containing the
  separator, \<open>getChannel\<close> does not fail: it returns the registered channel if the id is
  registered; otherwise, if the scope is found in the table, a new channel in state Pending
  registered under the concatenated id; otherwise the error channel \<open>invalid scope\<close>.
\<close>

theorem getChannel_does_not_validate:
  assumes "\<not> (valid_segment scopeId \<and> valid_segment ns \<and> valid_segment p)"
  shows "(open s (format_id scopeId ns p) = Some c \<longrightarrow> getChannel scopeId ns p s = (c, s)) \<and>
         (open s (format_id scopeId ns p) = None \<and> scopes scopeId \<noteq> None \<longrightarrow>
            fst (getChannel scopeId ns p s) = length (heap s) \<and>
            channel_at (snd (getChannel scopeId ns p s)) (length (heap s)) =
              Some ((new_CentrifugeLiveChannel (format_id scopeId ns p) scopeId ns p)
                      \<lparr>shutdownCallback := Some (OpenDelete (format_id scopeId ns p))\<rparr>) \<and>
            map_option state (channel_at (snd (getChannel scopeId ns p s)) (length (heap s))) =
              Some Pending \<and>
            open (snd (getChannel scopeId ns p s)) (format_id scopeId ns p) = Some (length (heap s))) \<and>
         (open s (format_id scopeId ns p) = None \<and> scopes scopeId = None \<longrightarrow>
            getChannel scopeId ns p s =
              getErrorChannel ''invalid scope'' (format_id scopeId ns p) scopeId ns p s)"
proof (intro conjI impI)
  assume "open s (format_id scopeId ns p) = Some c"
  then show "getChannel scopeId ns p s = (c, s)" by (rule getChannel_registered)
next
  assume a: "open s (format_id scopeId ns p) = None \<and> scopes scopeId \<noteq> None"
  then show "fst (getChannel scopeId ns p s) = length (heap s)"
    by (auto simp: getChannel_def Let_def)
  from a show "channel_at (snd (getChannel scopeId ns p s)) (length (heap s)) =
              Some ((new_CentrifugeLiveChannel (format_id scopeId ns p) scopeId ns p)
                      \<lparr>shutdownCallback := Some (OpenDelete (format_id scopeId ns p))\<rparr>)"
    by (simp add: channel_at_getChannel)
  from a show "map_option state (channel_at (snd (getChannel scopeId ns p s)) (length (heap s))) =
              Some Pending"
    by (simp add: channel_at_getChannel new_CentrifugeLiveChannel_def)
  from a show "open (snd (getChannel scopeId ns p s)) (format_id scopeId ns p) = Some (length (heap s))"
    by (simp add: open_getChannel)
next
  assume "open s (format_id scopeId ns p) = None \<and> scopes scopeId = None"
  then show "getChannel scopeId ns p s =
              getErrorChannel ''invalid scope'' (format_id scopeId ns p) scopeId ns p s"
    by (simp add: getChannel_def)
qed

lemma registry_ok_id:
  assumes "registry_ok s" "open s i = Some r" "channel_at s r = Some ch"
  shows "channel_id ch = i"
proof -
  from assms(1,2) obtain ch' where "channel_at s r = Some ch'" "channel_id ch' = i"
    unfolding registry_ok_def by blast
  with assms(3) show ?thesis by simp
qed

lemma length_heap_step: "length (heap s) \<le> length (heap (step e s))"
  by (cases e) (auto simp: length_heap_getChannel split: option.splits init_task.splits)

lemma unregistered_step:
  assumes "c < length (heap s)" "\<forall>i. open s i \<noteq> Some c"
  shows "\<forall>i. open (step e s) i \<noteq> Some c"
proof
  fix i
  show "open (step e s) i \<noteq> Some c"
  proof
    assume "open (step e s) i = Some c"
    from open_step_cases[OF this] assms show False by auto
  qed
qed

lemma unregistered_run:
  "c < length (heap s) \<Longrightarrow> \<forall>i. open s i \<noteq> Some c \<Longrightarrow>
   c < length (heap (run es s)) \<and> (\<forall>i. open (run es s) i \<noteq> Some c)"
proof (induction es arbitrary: s)
  case Nil
  then show ?case by simp
next
  case (Cons e es)
  have "c < length (heap (step e s))"
    using Cons.prems(1) length_heap_step[of s e] by simp
  moreover have "\<forall>i. open (step e s) i \<noteq> Some c"
    using Cons.prems by (rule unregistered_step)
  ultimately show ?case using Cons.IH by simp
qed

lemma fst_getChannel_cases:
  "open s (format_id sc ns p) = Some (fst (getChannel sc ns p s)) \<or>
   fst (getChannel sc ns p s) = length (heap s)"
  by (auto simp: getChannel_def getErrorChannel_def Let_def split: option.splits)

text \<open>
  Claim C5. In every reachable state, after \<open>disconnect()\<close> of a channel its id maps to
  nothing in the registry; \<open>getChannel\<close> with the channel's address then returns a new
  reference, not that channel, to a new object in state Pending that is registered under
  the id; and whatever happens afterwards, \<open>getChannel\<close> with that address never returns
  the disconnected channel again.
\<close>

theorem disconnect_unregisters:
  assumes "channel_at (run es (CentrifugeSrv_new c0)) c = Some ch"
  shows "open (disconnect c (run es (CentrifugeSrv_new c0))) (channel_id ch) = None \<and>
         fst (getChannel (scope ch) (namespace ch) (path ch)
                (disconnect c (run es (CentrifugeSrv_new c0))))
           = length (heap (disconnect c (run es (CentrifugeSrv_new c0)))) \<and>
         fst (getChannel (scope ch) (namespace ch) (path ch)
                (disconnect c (run es (CentrifugeSrv_new c0)))) \<noteq> c \<and>
         channel_at (snd (getChannel (scope ch) (namespace ch) (path ch)
                            (disconnect c (run es (CentrifugeSrv_new c0)))))
                    (length (heap (disconnect c (run es (CentrifugeSrv_new c0)))))
           = Some ((new_CentrifugeLiveChannel (channel_id ch) (scope ch) (namespace ch) (path ch))
                      \<lparr>shutdownCallback := Some (OpenDelete (channel_id ch))\<rparr>) \<and>
         map_option state
           (channel_at (snd (getChannel (scope ch) (namespace ch) (path ch)
                              (disconnect c (run es (CentrifugeSrv_new c0)))))
                       (length (heap (disconnect c (run es (CentrifugeSrv_new c0))))))
           = Some Pending \<and>
         open (snd (getChannel (scope ch) (namespace ch) (path ch)
                            (disconnect c (run es (CentrifugeSrv_new c0))))) (channel_id ch)
           = Some (length (heap (disconnect c (run es (CentrifugeSrv_new c0))))) \<and>
         fst (getChannel (scope ch) (namespace ch) (path ch)
                (run es' (disconnect c (run es (CentrifugeSrv_new c0))))) \<noteq> c"
proof -
  let ?s = "run es (CentrifugeSrv_new c0)"
  let ?d = "disconnect c ?s"
  have ok: "channels_ok ?s" "registry_ok ?s"
    by (simp_all add: channels_ok_run registry_ok_run invariants_new)
  from ok(1) assms have cb: "shutdownCallback ch = Some (OpenDelete (channel_id ch))"
    and fid: "channel_id ch = format_id (scope ch) (namespace ch) (path ch)"
    and sc: "scopes (scope ch) \<noteq> None"
    by (auto simp: channels_ok_def)
  have lt: "c < length (heap ?s)" using assms by (rule channel_at_bound)
  have od: "open ?d = (open ?s)(channel_id ch := None)"
    using assms cb by (simp add: open_disconnect)
  then have 1: "open ?d (channel_id ch) = None" by simp
  have 2: "fst (getChannel (scope ch) (namespace ch) (path ch) ?d) = length (heap ?d)"
    using 1 sc fid by (auto simp: getChannel_def Let_def)
  have 3: "fst (getChannel (scope ch) (namespace ch) (path ch) ?d) \<noteq> c"
    using 2 lt by simp
  have 4: "channel_at (snd (getChannel (scope ch) (namespace ch) (path ch) ?d)) (length (heap ?d))
           = Some ((new_CentrifugeLiveChannel (channel_id ch) (scope ch) (namespace ch) (path ch))
                      \<lparr>shutdownCallback := Some (OpenDelete (channel_id ch))\<rparr>)"
    using 1 sc fid by (simp add: channel_at_getChannel)
  have pend: "map_option state
              (channel_at (snd (getChannel (scope ch) (namespace ch) (path ch) ?d)) (length (heap ?d)))
            = Some Pending"
    unfolding 4 by (simp add: new_CentrifugeLiveChannel_def)
  have 5: "open (snd (getChannel (scope ch) (namespace ch) (path ch) ?d)) (channel_id ch)
           = Some (length (heap ?d))"
    using 1 sc fid by (simp add: open_getChannel)
  have un: "\<forall>i. open ?d i \<noteq> Some c"
  proof (intro allI notI)
    fix i assume a: "open ?d i = Some c"
    then have "open ?s i = Some c" "i \<noteq> channel_id ch"
      by (auto simp: od split: if_splits)
    with registry_ok_id[OF ok(2) _ assms] show False by simp
  qed
  have "c < length (heap ?d)" using lt by simp
  from unregistered_run[OF this un, of es']
  have r: "c < length (heap (run es' ?d))" "\<forall>i. open (run es' ?d) i \<noteq> Some c" by simp_all
  have 6: "fst (getChannel (scope ch) (namespace ch) (path ch) (run es' ?d)) \<noteq> c"
    using fst_getChannel_cases[of "run es' ?d" "scope ch" "namespace ch" "path ch"] r
    by auto
  from 1 2 3 4 pend 5 6 show ?thesis by blast
qed

text \<open>
  Claim C6. In every reachable state, a channel whose initialization is fulfilled with
  config \<open>cfg\<close> holds that config, and has a \<open>publish\<close> if and only if \<open>cfg\<close> has a
  \<open>canPublish\<close> and the call returned true; if \<open>canPublish\<close> is absent or returned false,
  \<open>publish\<close> is undefined.
\<close>

theorem publish_iff_canPublish:
  assumes "tasks (run es (CentrifugeSrv_new c0)) r = Some (Fulfilled cfg)"
      and "channel_at (run es (CentrifugeSrv_new c0)) r = Some ch"
  shows "config ch = Some cfg \<and>
         (publish ch \<noteq> None) = (canPublish cfg = Some (Inr True)) \<and>
         (canPublish cfg = None \<or> canPublish cfg = Some (Inr False) \<longrightarrow> publish ch = None)"
proof -
  have "publish_ok (run es (CentrifugeSrv_new c0))"
    by (simp add: publish_ok_run invariants_new)
  then have "publish_inv (channel_at (run es (CentrifugeSrv_new c0)) r)
                         (tasks (run es (CentrifugeSrv_new c0)) r)"
    by (simp add: publish_ok_def)
  with assms show ?thesis by auto
qed

text \<open>
  Claim C7. \<open>onConnect\<close> emits true and \<open>onDisconnect\<close> emits false on the connection
  state, at every connect and disconnect event of the transport, whatever the channels are;
  \<open>getConnectionState\<close> exposes that subject; the two events leave the channel objects as
  they are, and no event of a channel (lookup, initialization, \<open>catch\<close> handler,
  \<open>disconnect\<close>) emits on the connection state.
\<close>

theorem connectionState_follows_transport:
  "connectionState (onConnect s) = connectionState s @ [True] \<and>
   connectionState (onDisconnect s) = connectionState s @ [False] \<and>
   connectionState (step TransportConnect s) = connectionState s @ [True] \<and>
   connectionState (step TransportDisconnect s) = connectionState s @ [False] \<and>
   getConnectionState s = connectionState s \<and>
   heap (step TransportConnect s) = heap s \<and>
   heap (step TransportDisconnect s) = heap s \<and>
   connectionState (step (GetChannel scopeId ns p) s) = connectionState s \<and>
   connectionState (step (SupportSettled r support sub) s) = connectionState s \<and>
   connectionState (step (BlockerResolved r sub) s) = connectionState s \<and>
   connectionState (step (RunCatch r) s) = connectionState s \<and>
   connectionState (step (ChannelDisconnect r) s) = connectionState s"
  by (simp add: onConnect_def onDisconnect_def getConnectionState_def
           split: option.splits init_task.splits)

text \<open>Cutting a formatted id gives back its segments.\<close>

lemma split_id_segment: "CHR ''/'' \<notin> set w \<Longrightarrow> split_id w = [w]"
  by (induction w) auto

lemma split_id_cut: "CHR ''/'' \<notin> set w \<Longrightarrow> split_id (w @ CHR ''/'' # rest) = w # split_id rest"
  by (induction w) auto

lemma scope_value_no_sep: "CHR ''/'' \<notin> set (scope_value sc)"
  by (cases sc) simp_all

lemma parse_scope_value: "parse_scope (scope_value sc) = Some sc"
  by (cases sc) simp_all

text \<open>
  Claim C8. For every scope of the enumeration and all non-empty, separator-free namespace
  and path, parsing the id \<open>{scope}/{namespace}/{path}\<close> built by line 80 gives back the
  scope, the namespace and the path.
\<close>

theorem parse_format_roundtrip:
  assumes "valid_segment ns" and "valid_segment p"
  shows "parse_id (format_id (scope_value sc) ns p) = Inr (sc, ns, p)"
proof -
  from assms have n: "CHR ''/'' \<notin> set ns" "ns \<noteq> []" and q: "CHR ''/'' \<notin> set p" "p \<noteq> []"
    by (simp_all add: valid_segment_def)
  have "split_id (format_id (scope_value sc) ns p) = [scope_value sc, ns, p]"
    by (simp add: format_id_def split_id_cut scope_value_no_sep n(1) split_id_segment q(1))
  then show ?thesis
    using n(2) q(2) by (simp add: parse_id_def parse_scope_value del: parse_scope.simps)
qed

text \<open>
  Claim C9, as stated, fails: the registry is looked up before the scope. \<open>grafana/a\<close> is
  not one of the three scopes, but the address \<open>('grafana/a', 'b', 'c')\<close> formats to the id
  of the registered channel \<open>('grafana', 'a', 'b/c')\<close>: \<open>getChannel\<close> returns that channel
  (state Pending, in the registry), and so does a second call.
\<close>

theorem invalid_scope_counterexample:
  "''grafana/a'' \<notin> {scope_value Grafana, scope_value DataSource, scope_value Plugin} \<and>
   fst (getChannel ''grafana/a'' ''b'' ''c''
          (snd (getChannel ''grafana'' ''a'' ''b/c'' (CentrifugeSrv_new False)))) = 0 \<and>
   fst (getChannel ''grafana/a'' ''b'' ''c''
          (snd (getChannel ''grafana/a'' ''b'' ''c''
             (snd (getChannel ''grafana'' ''a'' ''b/c'' (CentrifugeSrv_new False)))))) = 0 \<and>
   open (snd (getChannel ''grafana/a'' ''b'' ''c''
          (snd (getChannel ''grafana'' ''a'' ''b/c'' (CentrifugeSrv_new False)))))
        (format_id ''grafana/a'' ''b'' ''c'') = Some 0 \<and>
   map_option state (channel_at (snd (getChannel ''grafana/a'' ''b'' ''c''
          (snd (getChannel ''grafana'' ''a'' ''b/c'' (CentrifugeSrv_new False))))) 0) = Some Pending"
  by (simp add: service_defs)

lemma scopes_None:
  "scopeId \<notin> {scope_value Grafana, scope_value DataSource, scope_value Plugin} \<Longrightarrow>
   scopeId \<notin> set object_prototype_keys \<Longrightarrow> scopes scopeId = None"
  by (simp add: scopes_def)

text \<open>
  Claim C9, amended. For a scopeId that the table lookup does not find (it is none of the
  three scope keys and none of the names inherited from \<open>Object.prototype\<close>) and an id
  that is not registered, \<open>getChannel\<close> returns a new error channel \<open>invalid scope\<close> and
  leaves the registry as it is, so a second call with the same address returns another
  object.
\<close>

theorem invalid_scope_error_channel:
  assumes "scopeId \<notin> {scope_value Grafana, scope_value DataSource, scope_value Plugin}"
      and "scopeId \<notin> set object_prototype_keys"
      and "open s (format_id scopeId ns p) = None"
  shows "fst (getChannel scopeId ns p s) = length (heap s) \<and>
         heap (snd (getChannel scopeId ns p s)) =
           heap s @ [ErrorCh \<lparr>err_msg = ''invalid scope'', err_id = format_id scopeId ns p,
                              err_scope = scopeId, err_namespace = ns, err_path = p\<rparr>] \<and>
         open (snd (getChannel scopeId ns p s)) = open s \<and>
         fst (getChannel scopeId ns p (snd (getChannel scopeId ns p s))) = length (heap s) + 1 \<and>
         fst (getChannel scopeId ns p (snd (getChannel scopeId ns p s))) \<noteq>
           fst (getChannel scopeId ns p s) \<and>
         open (snd (getChannel scopeId ns p (snd (getChannel scopeId ns p s)))) = open s"
proof -
  have n: "scopes scopeId = None" using assms(1,2) by (rule scopes_None)
  have g: "\<And>t. open t (format_id scopeId ns p) = None \<Longrightarrow>
             getChannel scopeId ns p t =
               (length (heap t),
                t\<lparr>heap := heap t @
                   [ErrorCh \<lparr>err_msg = ''invalid scope'', err_id = format_id scopeId ns p,
                             err_scope = scopeId, err_namespace = ns, err_path = p\<rparr>]\<rparr>)"
    using n by (simp add: getChannel_def getErrorChannel_def)
  show ?thesis
    using assms(3) by (simp add: g)
qed

lemma getChannel_completion_value:
  "getChannel_completion call scopeId ns p s =
     Inr (fst (getChannel scopeId ns p s),
          (case open s (format_id scopeId ns p) of
             Some c \<Rightarrow> snd (getChannel scopeId ns p s)
           | None \<Rightarrow>
               (case scopes scopeId of
                  None \<Rightarrow> snd (getChannel scopeId ns p s)
                | Some sc \<Rightarrow>
                    set_task (length (heap s)) (async_started (initChannel_body call sc ns))
                      (snd (getChannel scopeId ns p s)))))"
  by (auto simp: getChannel_completion_def getChannel_def call_initChannel_def initChannel_def
                 set_task_def Let_def
           split: option.splits scope_entry.splits)

lemma initChannel_async:
  "initChannel sc r s = set_task r (async_started (initChannel_body call_returns sc ns)) s"
  by (simp add: initChannel_def initChannel_body_def async_started_def call_returns_def
           split: scope_entry.splits)

lemma getChannel_completion_standard:
  "getChannel_completion call_returns scopeId ns p s = Inr (getChannel scopeId ns p s)"
  by (auto simp: getChannel_completion_def getChannel_def call_initChannel_def initChannel_def
                 initChannel_body_def async_started_def call_returns_def Let_def
           split: option.splits scope_entry.splits)

lemma caught_after_catch:
  assumes "tasks_ok s" and "tasks s r = Some (Rejected e)"
  shows "tasks (step (RunCatch r) s) r = Some (Caught e)"
proof -
  from assms have "channel_at s r \<noteq> None" by (auto simp: tasks_ok_def)
  with assms(2) show ?thesis by (auto simp: tasks_init_catch)
qed

lemma tasks_ok_set_task: "tasks_ok s \<Longrightarrow> channel_at s r \<noteq> None \<Longrightarrow> tasks_ok (set_task r t s)"
  by (auto simp: tasks_ok_def)

text \<open>
  Claim C10. In every reachable state, for every scopeId, namespace and path, and whatever
  the call of \<open>getChannelSupport\<close> does (it returns or it throws), the call of
  \<open>getChannel\<close> completes normally: it returns the reference \<open>getChannel\<close> computes, to
  a \<open>LiveChannel\<close> object of the store whose id is the formatted address. What the body
  of \<open>initChannel\<close> threw is the rejection of its promise, and the \<open>catch\<close> handler
  handles it; if the body is suspended the promise is pending and \<open>getChannel\<close> has
  returned without waiting; and every rejection of an initialization at any later time is
  handled by its \<open>catch\<close> handler, none is left unhandled.
\<close>

theorem getChannel_never_throws:
  "\<exists>c s'. getChannel_completion call scopeId ns p (run es (CentrifugeSrv_new c0)) = Inr (c, s') \<and>
      c = fst (getChannel scopeId ns p (run es (CentrifugeSrv_new c0))) \<and>
      heap s' = heap (snd (getChannel scopeId ns p (run es (CentrifugeSrv_new c0)))) \<and>
      open s' = open (snd (getChannel scopeId ns p (run es (CentrifugeSrv_new c0)))) \<and>
      c < length (heap s') \<and>
      LiveChannel_id (heap s' ! c) = format_id scopeId ns p \<and>
      (\<forall>sc e. open (run es (CentrifugeSrv_new c0)) (format_id scopeId ns p) = None \<and>
              scopes scopeId = Some sc \<and> initChannel_body call sc ns = Inl e \<longrightarrow>
              tasks s' c = Some (Rejected e) \<and>
              tasks (step (RunCatch c) s') c = Some (Caught e)) \<and>
      (\<forall>sc. open (run es (CentrifugeSrv_new c0)) (format_id scopeId ns p) = None \<and>
            scopes scopeId = Some sc \<and> initChannel_body call sc ns = Inr () \<longrightarrow>
            tasks s' c = Some AwaitSupport) \<and>
      (\<forall>es' r e. tasks (run es' s') r = Some (Rejected e) \<longrightarrow>
                 tasks (step (RunCatch r) (run es' s')) r = Some (Caught e))"
proof -
  let ?s = "run es (CentrifugeSrv_new c0)"
  let ?i = "format_id scopeId ns p"
  let ?g = "getChannel scopeId ns p ?s"
  let ?c = "fst ?g"
  let ?s' = "(case open ?s ?i of
             Some c \<Rightarrow> snd ?g
           | None \<Rightarrow>
               (case scopes scopeId of
                  None \<Rightarrow> snd ?g
                | Some sc \<Rightarrow>
                    set_task (length (heap ?s)) (async_started (initChannel_body call sc ns))
                      (snd ?g)))"
  have ok: "registry_ok ?s" "tasks_ok ?s"
    by (simp_all add: registry_ok_run invariants_new tasks_ok_run tasks_ok_new)
  have 1: "getChannel_completion call scopeId ns p ?s = Inr (?c, ?s')"
    by (rule getChannel_completion_value)
  have 2: "heap ?s' = heap (snd ?g)" "open ?s' = open (snd ?g)"
    by (simp_all split: option.splits)
  have 3: "?c < length (heap (snd ?g)) \<and> LiveChannel_id (heap (snd ?g) ! ?c) = ?i"
  proof (cases "open ?s ?i")
    case None
    then show ?thesis
      by (simp add: heap_getChannel fst_getChannel new_CentrifugeLiveChannel_def
               split: option.splits)
  next
    case (Some c)
    with ok(1) obtain ch where "channel_at ?s c = Some ch" "channel_id ch = ?i"
      unfolding registry_ok_def by blast
    then have "c < length (heap ?s)" "LiveChannel_id (heap ?s ! c) = ?i"
      by (auto simp: channel_at_def split: if_splits LiveChannel.splits)
    with Some show ?thesis
      by (simp add: heap_getChannel fst_getChannel)
  qed
  have t1: "tasks_ok (snd ?g)"
    using tasks_ok_step[OF ok(2), of "GetChannel scopeId ns p"] by simp
  have t2: "tasks_ok ?s'"
  proof (cases "open ?s ?i")
    case (Some c)
    with t1 show ?thesis by simp
  next
    case None
    show ?thesis
    proof (cases "scopes scopeId")
      case n: None
      with None t1 show ?thesis by simp
    next
      case (Some sc)
      with None have "channel_at (snd ?g) (length (heap ?s)) \<noteq> None"
        by (simp add: channel_at_getChannel)
      with None Some t1 show ?thesis by (simp add: tasks_ok_set_task)
    qed
  qed
  have nt: "\<And>sc. open ?s ?i = None \<Longrightarrow> scopes scopeId = Some sc \<Longrightarrow>
              tasks ?s' ?c = Some (async_started (initChannel_body call sc ns))"
    by (simp add: fst_getChannel)
  have 4: "\<forall>sc e. open ?s ?i = None \<and> scopes scopeId = Some sc \<and>
              initChannel_body call sc ns = Inl e \<longrightarrow>
              tasks ?s' ?c = Some (Rejected e) \<and>
              tasks (step (RunCatch ?c) ?s') ?c = Some (Caught e)"
  proof (intro allI impI)
    fix sc e
    assume a: "open ?s ?i = None \<and> scopes scopeId = Some sc \<and> initChannel_body call sc ns = Inl e"
    with nt[of sc] have r: "tasks ?s' ?c = Some (Rejected e)"
      by (simp add: async_started_def)
    with caught_after_catch[OF t2 r]
    show "tasks ?s' ?c = Some (Rejected e) \<and> tasks (step (RunCatch ?c) ?s') ?c = Some (Caught e)"
      by simp
  qed
  have 5: "\<forall>sc. open ?s ?i = None \<and> scopes scopeId = Some sc \<and>
            initChannel_body call sc ns = Inr () \<longrightarrow> tasks ?s' ?c = Some AwaitSupport"
    using nt by (auto simp: async_started_def)
  have 6: "\<forall>es' r e. tasks (run es' ?s') r = Some (Rejected e) \<longrightarrow>
                 tasks (step (RunCatch r) (run es' ?s')) r = Some (Caught e)"
    using tasks_ok_run[OF t2] caught_after_catch by blast
  from 1 2 3 4 5 6 show ?thesis
    by (intro exI[of _ ?c] exI[of _ ?s']) simp
qed

text \<open>
  C1 (amended) at a concrete input: after \<open>getChannel('grafana', 'a', 'b')\<close> on a new
  service the id is registered as object 0 and a second call returns 0 and the same state;
  with a connect event, the lookup and the disconnect of another channel and a step of
  the initialization in between, the second call still returns the first call's
  reference.
\<close>

theorem getChannel_same_instance_witness:
  "open (run [GetChannel ''grafana'' ''a'' ''b''] (CentrifugeSrv_new False))
        (format_id ''grafana'' ''a'' ''b'') = Some 0 \<and>
   getChannel ''grafana'' ''a'' ''b'' (run [GetChannel ''grafana'' ''a'' ''b''] (CentrifugeSrv_new False))
     = (0, run [GetChannel ''grafana'' ''a'' ''b''] (CentrifugeSrv_new False)) \<and>
   tasks (snd (getChannel ''grafana'' ''a'' ''b'' (run [] (CentrifugeSrv_new False))))
         (fst (getChannel ''grafana'' ''a'' ''b'' (run [] (CentrifugeSrv_new False)))) \<noteq> None \<and>
   undisturbed (format_id ''grafana'' ''a'' ''b'')
      [TransportConnect, GetChannel ''grafana'' ''a'' ''c'', ChannelDisconnect 1,
       SupportSettled 0 (Inr (Some (support_with (example_config None)))) (Inr 7)]
      (snd (getChannel ''grafana'' ''a'' ''b'' (run [] (CentrifugeSrv_new False)))) \<and>
   fst (getChannel ''grafana'' ''a'' ''b''
          (run [TransportConnect, GetChannel ''grafana'' ''a'' ''c'', ChannelDisconnect 1,
                SupportSettled 0 (Inr (Some (support_with (example_config None)))) (Inr 7)]
             (snd (getChannel ''grafana'' ''a'' ''b'' (run [] (CentrifugeSrv_new False))))))
     = fst (getChannel ''grafana'' ''a'' ''b'' (run [] (CentrifugeSrv_new False)))"
proof -
  let ?es = "[TransportConnect, GetChannel ''grafana'' ''a'' ''c'', ChannelDisconnect 1,
       SupportSettled 0 (Inr (Some (support_with (example_config None)))) (Inr 7)]"
  have h1: "open (run [GetChannel ''grafana'' ''a'' ''b''] (CentrifugeSrv_new False))
        (format_id ''grafana'' ''a'' ''b'') = Some 0"
    by (simp add: service_defs)
  from getChannel_same_instance[where s = "run [GetChannel ''grafana'' ''a'' ''b''] (CentrifugeSrv_new False)"
        and scopeId = "''grafana''" and ns = "''a''" and p = "''b''" and c = 0] h1
  have a: "getChannel ''grafana'' ''a'' ''b'' (run [GetChannel ''grafana'' ''a'' ''b''] (CentrifugeSrv_new False))
     = (0, run [GetChannel ''grafana'' ''a'' ''b''] (CentrifugeSrv_new False))"
    by blast
  have h2: "tasks (snd (getChannel ''grafana'' ''a'' ''b'' (run [] (CentrifugeSrv_new False))))
         (fst (getChannel ''grafana'' ''a'' ''b'' (run [] (CentrifugeSrv_new False)))) \<noteq> None"
    by (simp add: service_defs)
  have h3: "undisturbed (format_id ''grafana'' ''a'' ''b'') ?es
      (snd (getChannel ''grafana'' ''a'' ''b'' (run [] (CentrifugeSrv_new False))))"
    by (simp add: service_defs)
  from getChannel_same_instance[where scopeId = "''grafana''" and ns = "''a''" and p = "''b''"
        and ?es0.0 = "[]" and ?c0.0 = False and es = ?es] h2 h3
  have b: "fst (getChannel ''grafana'' ''a'' ''b''
          (run ?es (snd (getChannel ''grafana'' ''a'' ''b'' (run [] (CentrifugeSrv_new False))))))
     = fst (getChannel ''grafana'' ''a'' ''b'' (run [] (CentrifugeSrv_new False)))"
    by blast
  from h1 a h2 h3 b show ?thesis by blast
qed

text \<open>
  C2 at a concrete input: \<open>getChannel('ds', 'm', 'x')\<close>, and the scope has no support for
  the namespace.
\<close>

theorem init_failure_contained_witness:
  "channel_at (run [GetChannel ''ds'' ''m'' ''x'', SupportSettled 0 (Inr None) (Inr 1)]
                 (CentrifugeSrv_new False)) 0
     = Some ((new_CentrifugeLiveChannel ''ds/m/x'' ''ds'' ''m'' ''x'')
               \<lparr>shutdownCallback := Some (OpenDelete ''ds/m/x'')\<rparr>) \<and>
   tasks (run [GetChannel ''ds'' ''m'' ''x'', SupportSettled 0 (Inr None) (Inr 1)]
            (CentrifugeSrv_new False)) 0
     = Some (Rejected ''mdoes not support streaming'') \<and>
   map_option state (channel_at (step (RunCatch 0)
       (run [GetChannel ''ds'' ''m'' ''x'', SupportSettled 0 (Inr None) (Inr 1)]
          (CentrifugeSrv_new False))) 0) = Some Shutdown \<and>
   map_option error (channel_at (step (RunCatch 0)
       (run [GetChannel ''ds'' ''m'' ''x'', SupportSettled 0 (Inr None) (Inr 1)]
          (CentrifugeSrv_new False))) 0) = Some (Some ''mdoes not support streaming'') \<and>
   open (step (RunCatch 0)
       (run [GetChannel ''ds'' ''m'' ''x'', SupportSettled 0 (Inr None) (Inr 1)]
          (CentrifugeSrv_new False))) ''ds/m/x'' = None"
proof -
  have h1: "channel_at (run [GetChannel ''ds'' ''m'' ''x'', SupportSettled 0 (Inr None) (Inr 1)]
                 (CentrifugeSrv_new False)) 0
     = Some ((new_CentrifugeLiveChannel ''ds/m/x'' ''ds'' ''m'' ''x'')
               \<lparr>shutdownCallback := Some (OpenDelete ''ds/m/x'')\<rparr>)"
    by (simp add: service_defs)
  have h2: "tasks (run [GetChannel ''ds'' ''m'' ''x'', SupportSettled 0 (Inr None) (Inr 1)]
            (CentrifugeSrv_new False)) 0
     = Some (Rejected ''mdoes not support streaming'')"
    by (simp add: service_defs)
  have h3: "channel_id ((new_CentrifugeLiveChannel ''ds/m/x'' ''ds'' ''m'' ''x'')
               \<lparr>shutdownCallback := Some (OpenDelete ''ds/m/x'')\<rparr>) = ''ds/m/x''"
    by (simp add: new_CentrifugeLiveChannel_def)
  from init_failure_contained[OF h1 h2] h1 h2 show ?thesis
    unfolding h3 by blast
qed

text \<open>
  C3 (amended) at a concrete input: two channels created before the first connect. The
  config of channel 0 is resolved and it suspends on the blocker; so does channel 1. After
  the connect event channel 0 resumes and attaches subscription 7; channel 1 resumes
  later, after channel 0 and after a disconnect of the transport, and attaches
  subscription 8.
\<close>

theorem waits_for_first_connect_witness:
  "TransportConnect \<notin> set [GetChannel ''grafana'' ''a'' ''b'', GetChannel ''grafana'' ''a'' ''c''] \<and>
   tasks (run [GetChannel ''grafana'' ''a'' ''b'', GetChannel ''grafana'' ''a'' ''c'']
            (CentrifugeSrv_new False)) 0 = Some AwaitSupport \<and>
   tasks (step (SupportSettled 0 (Inr (Some (support_with (example_config None)))) (Inr 7))
           (run [GetChannel ''grafana'' ''a'' ''b'', GetChannel ''grafana'' ''a'' ''c'']
              (CentrifugeSrv_new False))) 0 = Some (AwaitBlocker (example_config None)) \<and>
   TransportConnect \<notin> set [GetChannel ''grafana'' ''a'' ''b'', GetChannel ''grafana'' ''a'' ''c'',
        SupportSettled 0 (Inr (Some (support_with (example_config None)))) (Inr 7),
        SupportSettled 1 (Inr (Some (support_with (example_config None)))) (Inr 8)] \<and>
   tasks (run [GetChannel ''grafana'' ''a'' ''b'', GetChannel ''grafana'' ''a'' ''c'',
        SupportSettled 0 (Inr (Some (support_with (example_config None)))) (Inr 7),
        SupportSettled 1 (Inr (Some (support_with (example_config None)))) (Inr 8)]
        (CentrifugeSrv_new False)) 1 = Some (AwaitBlocker (example_config None)) \<and>
   \<not> resumes 1 (BlockerResolved 0 (Inr 7)) \<and>
   \<not> resumes 1 TransportDisconnect \<and>
   canPublish (example_config None) = None \<and>
   map_option subscription (channel_at
      (step (BlockerResolved 0 (Inr 7)) (step TransportConnect
        (run [GetChannel ''grafana'' ''a'' ''b'', GetChannel ''grafana'' ''a'' ''c'',
          SupportSettled 0 (Inr (Some (support_with (example_config None)))) (Inr 7),
          SupportSettled 1 (Inr (Some (support_with (example_config None)))) (Inr 8)]
          (CentrifugeSrv_new False)))) 0) = Some (Some 7) \<and>
   map_option subscription (channel_at
      (step (BlockerResolved 1 (Inr 8))
        (run [BlockerResolved 0 (Inr 7), TransportDisconnect] (step TransportConnect
          (run [GetChannel ''grafana'' ''a'' ''b'', GetChannel ''grafana'' ''a'' ''c'',
            SupportSettled 0 (Inr (Some (support_with (example_config None)))) (Inr 7),
            SupportSettled 1 (Inr (Some (support_with (example_config None)))) (Inr 8)]
            (CentrifugeSrv_new False))))) 1) = Some (Some 8)"
proof -
  let ?e1 = "[GetChannel ''grafana'' ''a'' ''b'', GetChannel ''grafana'' ''a'' ''c'']"
  let ?e2 = "[GetChannel ''grafana'' ''a'' ''b'', GetChannel ''grafana'' ''a'' ''c'',
        SupportSettled 0 (Inr (Some (support_with (example_config None)))) (Inr 7),
        SupportSettled 1 (Inr (Some (support_with (example_config None)))) (Inr 8)]"
  let ?cfg = "example_config None"
  have n1: "TransportConnect \<notin> set ?e1" and n2: "TransportConnect \<notin> set ?e2" by simp_all
  have t0: "tasks (run ?e1 (CentrifugeSrv_new False)) 0 = Some AwaitSupport"
    by (simp add: service_defs)
  obtain c0 where c0: "channel_at (run ?e1 (CentrifugeSrv_new False)) 0 = Some c0"
    by (simp add: service_defs)
  have sp: "support_with ?cfg (path c0) = Inr (Some ?cfg)" by (simp add: support_with_def)
  from waits_for_first_connect[OF n1, of 0 c0 "Inr 7" "support_with ?cfg" ?cfg] t0 c0 sp
  have a: "tasks (step (SupportSettled 0 (Inr (Some (support_with ?cfg))) (Inr 7))
                   (run ?e1 (CentrifugeSrv_new False))) 0 = Some (AwaitBlocker ?cfg)"
    by blast
  have w0: "tasks (run ?e2 (CentrifugeSrv_new False)) 0 = Some (AwaitBlocker ?cfg)"
    and w1: "tasks (run ?e2 (CentrifugeSrv_new False)) 1 = Some (AwaitBlocker ?cfg)"
    by (simp_all add: service_defs)
  obtain d0 where d0: "channel_at (run ?e2 (CentrifugeSrv_new False)) 0 = Some d0"
    by (simp add: service_defs)
  obtain d1 where d1: "channel_at (run ?e2 (CentrifugeSrv_new False)) 1 = Some d1"
    by (simp add: service_defs)
  have k: "canPublish ?cfg = None" by (simp add: example_config_def)
  then have k': "\<forall>x. canPublish ?cfg \<noteq> Some (Inl x)" by simp
  have r0: "\<forall>e\<in>set []. \<not> resumes 0 e" by simp
  have r1: "\<not> resumes 1 (BlockerResolved 0 (Inr 7))" "\<not> resumes 1 TransportDisconnect"
    by simp_all
  then have r1': "\<forall>e\<in>set [BlockerResolved 0 (Inr 7), TransportDisconnect]. \<not> resumes 1 e"
    by simp
  from waits_for_first_connect[OF n2, of 0 d0 "Inr 7" "support_with ?cfg" ?cfg "[]" _ 7]
    w0 d0 r0 k'
  have b: "map_option subscription (channel_at
      (step (BlockerResolved 0 (Inr 7)) (run [] (step TransportConnect
        (run ?e2 (CentrifugeSrv_new False))))) 0) = Some (Some 7)"
    by blast
  from waits_for_first_connect[OF n2, of 1 d1 "Inr 8" "support_with ?cfg" ?cfg
      "[BlockerResolved 0 (Inr 7), TransportDisconnect]" _ 8] w1 d1 r1' k'
  have c: "map_option subscription (channel_at
      (step (BlockerResolved 1 (Inr 8))
        (run [BlockerResolved 0 (Inr 7), TransportDisconnect] (step TransportConnect
          (run ?e2 (CentrifugeSrv_new False))))) 1) = Some (Some 8)"
    by blast
  have b': "map_option subscription (channel_at
      (step (BlockerResolved 0 (Inr 7)) (step TransportConnect
        (run ?e2 (CentrifugeSrv_new False)))) 0) = Some (Some 7)"
    using b by (simp only: run.simps)
  from n1 t0 a n2 w1 r1 k b' c show ?thesis by blast
qed

text \<open>
  C4 (amended) at concrete inputs: an empty namespace under a registered scope (a new
  channel, then the registered one), and an empty scope (the error channel).
\<close>

theorem getChannel_does_not_validate_witness:
  "\<not> (valid_segment ''grafana'' \<and> valid_segment '''' \<and> valid_segment ''x'') \<and>
   open (CentrifugeSrv_new False) (format_id ''grafana'' '''' ''x'') = None \<and>
   scopes ''grafana'' \<noteq> None \<and>
   fst (getChannel ''grafana'' '''' ''x'' (CentrifugeSrv_new False)) = 0 \<and>
   open (snd (getChannel ''grafana'' '''' ''x'' (CentrifugeSrv_new False)))
        (format_id ''grafana'' '''' ''x'') = Some 0 \<and>
   getChannel ''grafana'' '''' ''x'' (snd (getChannel ''grafana'' '''' ''x'' (CentrifugeSrv_new False)))
     = (0, snd (getChannel ''grafana'' '''' ''x'' (CentrifugeSrv_new False))) \<and>
   \<not> (valid_segment '''' \<and> valid_segment ''a/b'' \<and> valid_segment ''x'') \<and>
   open (CentrifugeSrv_new False) (format_id '''' ''a/b'' ''x'') = None \<and>
   scopes '''' = None \<and>
   getChannel '''' ''a/b'' ''x'' (CentrifugeSrv_new False)
     = getErrorChannel ''invalid scope'' (format_id '''' ''a/b'' ''x'') '''' ''a/b'' ''x''
         (CentrifugeSrv_new False)"
proof -
  let ?n = "CentrifugeSrv_new False"
  have v1: "\<not> (valid_segment ''grafana'' \<and> valid_segment '''' \<and> valid_segment ''x'')"
    by (simp add: valid_segment_def)
  have o1: "open ?n (format_id ''grafana'' '''' ''x'') = None"
    by (simp add: CentrifugeSrv_new_def)
  have s1: "scopes ''grafana'' \<noteq> None" by (simp add: scopes_def)
  from getChannel_does_not_validate[OF v1, of ?n 0] o1 s1
  have a: "fst (getChannel ''grafana'' '''' ''x'' ?n) = 0"
    and b: "open (snd (getChannel ''grafana'' '''' ''x'' ?n)) (format_id ''grafana'' '''' ''x'') = Some 0"
    by (simp_all add: CentrifugeSrv_new_def)
  from getChannel_does_not_validate[OF v1, of "snd (getChannel ''grafana'' '''' ''x'' ?n)" 0] b
  have c: "getChannel ''grafana'' '''' ''x'' (snd (getChannel ''grafana'' '''' ''x'' ?n))
     = (0, snd (getChannel ''grafana'' '''' ''x'' ?n))"
    by blast
  have v2: "\<not> (valid_segment '''' \<and> valid_segment ''a/b'' \<and> valid_segment ''x'')"
    by (simp add: valid_segment_def)
  have o2: "open ?n (format_id '''' ''a/b'' ''x'') = None"
    by (simp add: CentrifugeSrv_new_def)
  have s2: "scopes '''' = None" by (simp add: scopes_def object_prototype_keys_def)
  from getChannel_does_not_validate[OF v2, of ?n 0] o2 s2
  have d: "getChannel '''' ''a/b'' ''x'' ?n
     = getErrorChannel ''invalid scope'' (format_id '''' ''a/b'' ''x'') '''' ''a/b'' ''x'' ?n"
    by blast
  from v1 o1 s1 a b c v2 o2 s2 d show ?thesis by blast
qed

text \<open>C5 at a concrete input: one channel, disconnected; the next lookup returns object 1.\<close>

theorem disconnect_unregisters_witness:
  "channel_at (run [GetChannel ''grafana'' ''a'' ''b''] (CentrifugeSrv_new False)) 0
     = Some ((new_CentrifugeLiveChannel ''grafana/a/b'' ''grafana'' ''a'' ''b'')
               \<lparr>shutdownCallback := Some (OpenDelete ''grafana/a/b'')\<rparr>) \<and>
   open (disconnect 0 (run [GetChannel ''grafana'' ''a'' ''b''] (CentrifugeSrv_new False)))
        ''grafana/a/b'' = None \<and>
   fst (getChannel ''grafana'' ''a'' ''b''
          (disconnect 0 (run [GetChannel ''grafana'' ''a'' ''b''] (CentrifugeSrv_new False)))) = 1 \<and>
   fst (getChannel ''grafana'' ''a'' ''b''
          (run [TransportConnect]
            (disconnect 0 (run [GetChannel ''grafana'' ''a'' ''b''] (CentrifugeSrv_new False)))))
     \<noteq> 0"
proof -
  let ?s = "run [GetChannel ''grafana'' ''a'' ''b''] (CentrifugeSrv_new False)"
  let ?ch = "(new_CentrifugeLiveChannel ''grafana/a/b'' ''grafana'' ''a'' ''b'')
               \<lparr>shutdownCallback := Some (OpenDelete ''grafana/a/b'')\<rparr>"
  have h: "channel_at ?s 0 = Some ?ch"
    by (simp add: service_defs)
  have f: "channel_id ?ch = ''grafana/a/b''" "scope ?ch = ''grafana''" "namespace ?ch = ''a''"
    "path ?ch = ''b''"
    by (simp_all add: new_CentrifugeLiveChannel_def)
  have l: "length (heap (disconnect 0 ?s)) = 1"
    by (simp add: getChannel_def CentrifugeSrv_new_def Let_def scopes_def initChannel_def
          set_task_def)
  from disconnect_unregisters[OF h, of "[TransportConnect]"] h show ?thesis
    unfolding f l by blast
qed

text \<open>
  C6 at concrete inputs, on a connected service: with \<open>canPublish\<close> returning true the
  channel has a \<open>publish\<close>, without \<open>canPublish\<close> it has none.
\<close>

theorem publish_iff_canPublish_witness:
  "tasks (run [GetChannel ''grafana'' ''a'' ''b'',
               SupportSettled 0 (Inr (Some (support_with (example_config (Some (Inr True)))))) (Inr 7)]
              (CentrifugeSrv_new True)) 0
     = Some (Fulfilled (example_config (Some (Inr True)))) \<and>
   channel_at (run [GetChannel ''grafana'' ''a'' ''b'',
               SupportSettled 0 (Inr (Some (support_with (example_config (Some (Inr True)))))) (Inr 7)]
              (CentrifugeSrv_new True)) 0
     = Some ((new_CentrifugeLiveChannel ''grafana/a/b'' ''grafana'' ''a'' ''b'')
               \<lparr>config := Some (example_config (Some (Inr True))),
                subscription := Some 7,
                publish := Some (CentrifugePublish ''grafana/a/b''),
                shutdownCallback := Some (OpenDelete ''grafana/a/b'')\<rparr>) \<and>
   canPublish (example_config (Some (Inr True))) = Some (Inr True) \<and>
   publish ((new_CentrifugeLiveChannel ''grafana/a/b'' ''grafana'' ''a'' ''b'')
               \<lparr>config := Some (example_config (Some (Inr True))),
                subscription := Some 7,
                publish := Some (CentrifugePublish ''grafana/a/b''),
                shutdownCallback := Some (OpenDelete ''grafana/a/b'')\<rparr>) \<noteq> None \<and>
   tasks (run [GetChannel ''grafana'' ''a'' ''b'',
               SupportSettled 0 (Inr (Some (support_with (example_config None)))) (Inr 7)]
              (CentrifugeSrv_new True)) 0
     = Some (Fulfilled (example_config None)) \<and>
   channel_at (run [GetChannel ''grafana'' ''a'' ''b'',
               SupportSettled 0 (Inr (Some (support_with (example_config None)))) (Inr 7)]
              (CentrifugeSrv_new True)) 0
     = Some ((new_CentrifugeLiveChannel ''grafana/a/b'' ''grafana'' ''a'' ''b'')
               \<lparr>config := Some (example_config None),
                subscription := Some 7,
                shutdownCallback := Some (OpenDelete ''grafana/a/b'')\<rparr>) \<and>
   canPublish (example_config None) = None \<and>
   publish ((new_CentrifugeLiveChannel ''grafana/a/b'' ''grafana'' ''a'' ''b'')
               \<lparr>config := Some (example_config None),
                subscription := Some 7,
                shutdownCallback := Some (OpenDelete ''grafana/a/b'')\<rparr>) = None"
proof -
  let ?e1 = "[GetChannel ''grafana'' ''a'' ''b'',
               SupportSettled 0 (Inr (Some (support_with (example_config (Some (Inr True)))))) (Inr 7)]"
  let ?e2 = "[GetChannel ''grafana'' ''a'' ''b'',
               SupportSettled 0 (Inr (Some (support_with (example_config None)))) (Inr 7)]"
  let ?c1 = "(new_CentrifugeLiveChannel ''grafana/a/b'' ''grafana'' ''a'' ''b'')
               \<lparr>config := Some (example_config (Some (Inr True))),
                subscription := Some 7,
                publish := Some (CentrifugePublish ''grafana/a/b''),
                shutdownCallback := Some (OpenDelete ''grafana/a/b'')\<rparr>"
  let ?c2 = "(new_CentrifugeLiveChannel ''grafana/a/b'' ''grafana'' ''a'' ''b'')
               \<lparr>config := Some (example_config None),
                subscription := Some 7,
                shutdownCallback := Some (OpenDelete ''grafana/a/b'')\<rparr>"
  have t1: "tasks (run ?e1 (CentrifugeSrv_new True)) 0
              = Some (Fulfilled (example_config (Some (Inr True))))"
    by (simp add: service_defs)
  have t2: "tasks (run ?e2 (CentrifugeSrv_new True)) 0 = Some (Fulfilled (example_config None))"
    by (simp add: service_defs)
  have c1: "channel_at (run ?e1 (CentrifugeSrv_new True)) 0 = Some ?c1"
    by (simp add: service_defs)
  have c2: "channel_at (run ?e2 (CentrifugeSrv_new True)) 0 = Some ?c2"
    by (simp add: service_defs)
  have k1: "canPublish (example_config (Some (Inr True))) = Some (Inr True)"
    and k2: "canPublish (example_config None) = None"
    by (simp_all add: example_config_def)
  from publish_iff_canPublish[OF t1 c1] k1 have p1: "publish ?c1 \<noteq> None" by blast
  from publish_iff_canPublish[OF t2 c2] k2 have p2: "publish ?c2 = None" by blast
  from t1 c1 k1 p1 t2 c2 k2 p2 show ?thesis by blast
qed

text \<open>C8 at a concrete input.\<close>

theorem parse_format_roundtrip_witness:
  "valid_segment ''testdata'' \<and> valid_segment ''random-2s-stream'' \<and>
   parse_id ''grafana/testdata/random-2s-stream'' = Inr (Grafana, ''testdata'', ''random-2s-stream'')"
proof -
  have a: "valid_segment ''testdata''" and b: "valid_segment ''random-2s-stream''"
    by (simp_all add: valid_segment_def)
  from parse_format_roundtrip[OF a b, of Grafana] a b show ?thesis
    by (simp add: format_id_def)
qed

text \<open>C9 (amended) at a concrete input: the scope \<open>bogus\<close>.\<close>

theorem invalid_scope_error_channel_witness:
  "''bogus'' \<notin> {scope_value Grafana, scope_value DataSource, scope_value Plugin} \<and>
   ''bogus'' \<notin> set object_prototype_keys \<and>
   open (CentrifugeSrv_new False) (format_id ''bogus'' ''a'' ''b'') = None \<and>
   fst (getChannel ''bogus'' ''a'' ''b'' (CentrifugeSrv_new False)) = 0 \<and>
   fst (getChannel ''bogus'' ''a'' ''b'' (snd (getChannel ''bogus'' ''a'' ''b'' (CentrifugeSrv_new False)))) = 1 \<and>
   open (snd (getChannel ''bogus'' ''a'' ''b'' (CentrifugeSrv_new False))) ''bogus/a/b'' = None"
proof -
  have a: "''bogus'' \<notin> {scope_value Grafana, scope_value DataSource, scope_value Plugin}"
    by simp
  have b: "''bogus'' \<notin> set object_prototype_keys"
    by (simp add: object_prototype_keys_def)
  have c: "open (CentrifugeSrv_new False) (format_id ''bogus'' ''a'' ''b'') = None"
    by (simp add: CentrifugeSrv_new_def)
  from invalid_scope_error_channel[OF a b c] a b c show ?thesis
    by (simp add: CentrifugeSrv_new_def)
qed

text \<open>
  C10 at a concrete input: the scope's \<open>getChannelSupport\<close> throws \<open>boom\<close>; the call of
  \<open>getChannel\<close> completes normally with the new channel 0, the promise of its
  initialization is rejected with \<open>boom\<close>, and the \<open>catch\<close> handler handles it.
\<close>

theorem getChannel_never_throws_witness:
  "\<exists>s'. getChannel_completion (call_throws ''boom'') ''grafana'' ''a'' ''b''
           (run [] (CentrifugeSrv_new False)) = Inr (0, s') \<and>
         open (run [] (CentrifugeSrv_new False)) (format_id ''grafana'' ''a'' ''b'') = None \<and>
         scopes ''grafana'' = Some (Scope grafanaLiveCoreFeatures) \<and>
         initChannel_body (call_throws ''boom'') (Scope grafanaLiveCoreFeatures) ''a'' = Inl ''boom'' \<and>
         LiveChannel_id (heap s' ! 0) = ''grafana/a/b'' \<and>
         tasks s' 0 = Some (Rejected ''boom'') \<and>
         tasks (step (RunCatch 0) s') 0 = Some (Caught ''boom'')"
proof -
  have a: "open (run [] (CentrifugeSrv_new False)) (format_id ''grafana'' ''a'' ''b'') = None"
    by (simp add: CentrifugeSrv_new_def)
  have b: "scopes ''grafana'' = Some (Scope grafanaLiveCoreFeatures)"
    by (simp add: scopes_def)
  have c: "initChannel_body (call_throws ''boom'') (Scope grafanaLiveCoreFeatures) ''a'' = Inl ''boom''"
    by (simp add: initChannel_body_def call_throws_def)
  have d: "fst (getChannel ''grafana'' ''a'' ''b'' (run [] (CentrifugeSrv_new False))) = 0"
    by (simp add: fst_getChannel CentrifugeSrv_new_def)
  have f: "format_id ''grafana'' ''a'' ''b'' = ''grafana/a/b''" by (simp add: format_id_def)
  from getChannel_never_throws[of "call_throws ''boom''" "''grafana''" "''a''" "''b''" "[]" False]
  obtain k s' where
    1: "getChannel_completion (call_throws ''boom'') ''grafana'' ''a'' ''b''
           (run [] (CentrifugeSrv_new False)) = Inr (k, s')"
    and 2: "k = fst (getChannel ''grafana'' ''a'' ''b'' (run [] (CentrifugeSrv_new False)))"
    and 3: "LiveChannel_id (heap s' ! k) = format_id ''grafana'' ''a'' ''b''"
    and 4: "\<forall>sc e. open (run [] (CentrifugeSrv_new False)) (format_id ''grafana'' ''a'' ''b'') = None \<and>
              scopes ''grafana'' = Some sc \<and> initChannel_body (call_throws ''boom'') sc ''a'' = Inl e \<longrightarrow>
              tasks s' k = Some (Rejected e) \<and>
              tasks (step (RunCatch k) s') k = Some (Caught e)"
    by blast
  from 2 d have k: "k = 0" by simp
  from 4 a b c have 5: "tasks s' k = Some (Rejected ''boom'') \<and>
              tasks (step (RunCatch k) s') k = Some (Caught ''boom'')"
    by blast
  from 1 3 5 a b c show ?thesis
    unfolding k f by blast
qed

end
